theory Spec2Isabelle
  imports Main
begin

section \<open>Data model of the game server\<close>

text \<open>
  The server keeps two JavaScript maps, \<open>rooms\<close> and \<open>sessions\<close>, and mutates the room
  objects in place from its socket handlers. The model passes that state explicitly: every
  handler is a function from the state (and the calling socket, the payload and the values
  the handler draws from the environment: the clock and the random identifiers) to the new
  state and the list of events it emits.

  The model follows the server that keeps sessions, the one the client speaks to (it
  sends \<open>auth.sessionId\<close> and stores the \<open>session\<close> event). The repository also holds
  \<open>server/index.js\<close>, the same server before sessions were added: it has no reconnection,
  pushes every submission and vote instead of overwriting, and does not drop self-votes;
  its \<open>start-game\<close> and \<open>next-round\<close> are the same.

  Connection handles, session identifiers, room identifiers and every payload field are
  JavaScript strings. Points and round numbers are JavaScript numbers that only ever hold
  small naturals (they start at 0, 1 or 10 and change by \<open>+ 1\<close>), so they are \<open>nat\<close>;
  timestamps are \<open>int\<close>.
\<close>

datatype phase = Lobby | TopicSelection | GifSelection | Voting | Reveal | GameOver

text \<open>A player object \<open>{ id, sessionId, name, points }\<close>.\<close>

record player =
  p_id :: string
  p_sessionId :: string
  name :: string
  points :: nat

text \<open>A submission \<open>{ playerId, gifUrl }\<close> and a vote \<open>{ voterId, votedPlayerId }\<close>.\<close>

record submission =
  playerId :: string
  gifUrl :: string

record vote =
  voterId :: string
  votedPlayerId :: string

text \<open>
  A room object. \<open>winnerOfLastRound\<close> is assigned \<open>winners[0]\<close> after a tally, which is
  \<open>undefined\<close> for an empty array: the field is an option.
\<close>

record room =
  r_id :: string
  hostId :: string
  players :: "player list"
  status :: phase
  currentRound :: nat
  maxRounds :: nat
  topic :: string
  submissions :: "submission list"
  votes :: "vote list"
  winnerOfLastRound :: "string option"

text \<open>
  A session object. The connection handler stores \<open>{ lastSeen }\<close> alone for a fresh
  session, so the other three fields may be missing.
\<close>

record session =
  socketId :: "string option"
  roomId :: "string option"
  playerName :: "string option"
  lastSeen :: int

text \<open>
  What the handlers read of the calling socket: its connection handle \<open>socket.id\<close> and the
  \<open>socket.sessionId\<close> the middleware gave it. (\<open>socket.roomId\<close> and \<open>socket.playerName\<close>
  are read by the connection handler only, straight after the middleware set them; the
  later writes to them are never read.)
\<close>

record socket =
  s_id :: string
  s_sessionId :: string

record state =
  rooms :: "string \<rightharpoonup> room"
  sessions :: "string \<rightharpoonup> session"

text \<open>A value held by a property of the tally object \<open>voteCounts\<close>: a number or, for
  a key that \<open>Object.prototype\<close> defines, a string (see \<open>bump\<close> below).\<close>

datatype jsvalue = Num nat | Str string

text \<open>The events of the protocol, with the payload the server sends.\<close>

datatype event =
    Ev_session string
  | Ev_room_created room
  | Ev_player_joined room
  | Ev_error string
  | Ev_game_started room
  | Ev_topic_submitted room
  | Ev_all_gifs_submitted room
  | Ev_gif_submitted nat nat
  | Ev_round_ended room "string list" "(string \<times> jsvalue) list"
  | Ev_vote_submitted nat nat
  | Ev_new_round room

text \<open>\<open>socket.emit\<close> answers the caller, \<open>io.to(roomId).emit\<close> broadcasts to a room.\<close>

datatype target = To_socket string | To_room string

type_synonym emits = "(target \<times> event) list"

section \<open>JavaScript library functions\<close>

text \<open>\<open>Array.prototype.findIndex\<close>: the first index whose element satisfies the predicate
  (\<open>None\<close> for JavaScript's \<open>-1\<close>). \<open>Array.prototype.find\<close> followed by a write to the
  object found is \<open>findIndex\<close> followed by an update at that index.\<close>

fun findIndex :: "('a \<Rightarrow> bool) \<Rightarrow> 'a list \<Rightarrow> nat option" where
  "findIndex P [] = None"
| "findIndex P (x # xs) = (if P x then Some 0 else map_option Suc (findIndex P xs))"

text \<open>A string is truthy when it is not empty.\<close>

definition truthy :: "string \<Rightarrow> bool" where
  "truthy s = (s \<noteq> [])"

text \<open>
  \<open>Object.entries\<close> lists the keys that are array indices (canonical decimal numerals below
  \<open>2^32 - 1\<close>) first, in ascending numeric order, and the other string keys after them in
  insertion order. An object used as a dictionary is an association list in insertion
  order; \<open>object_entries\<close> gives the order of iteration.
\<close>

definition is_digit :: "char \<Rightarrow> bool" where
  "is_digit c = (c \<in> set ''0123456789'')"

definition dec :: "string \<Rightarrow> nat" where
  "dec s = foldl (\<lambda>n c. 10 * n + (of_char c - 48)) 0 s"

definition is_array_index :: "string \<Rightarrow> bool" where
  "is_array_index s =
     (s \<noteq> [] \<and> list_all is_digit s \<and> (s = ''0'' \<or> hd s \<noteq> CHR ''0'') \<and> dec s < 2 ^ 32 - 1)"

definition object_entries :: "(string \<times> 'v) list \<Rightarrow> (string \<times> 'v) list" where
  "object_entries obj =
     sort_key (\<lambda>e. dec (fst e)) (filter (\<lambda>e. is_array_index (fst e)) obj)
     @ filter (\<lambda>e. \<not> is_array_index (fst e)) obj"

section \<open>The vote tally\<close>

text \<open>
  \<open>const voteCounts = {}\<close> is an ordinary object: a key it does not own is looked up in
  \<open>Object.prototype\<close>. That object defines eleven methods and the accessor \<open>__proto__\<close>,
  whose getter yields \<open>Object.prototype\<close> itself; no other string key is inherited.
\<close>

definition prototype_methods :: "string list" where
  "prototype_methods =
     [''constructor'', ''__defineGetter__'', ''__defineSetter__'', ''hasOwnProperty'',
      ''__lookupGetter__'', ''__lookupSetter__'', ''isPrototypeOf'', ''propertyIsEnumerable'',
      ''toString'', ''valueOf'', ''toLocaleString'']"

definition prototype_names :: "string list" where
  "prototype_names = ''__proto__'' # prototype_methods"

text \<open>
  An inherited value is an object, so it is truthy and \<open>+ 1\<close> concatenates its string
  form with \<open>"1"\<close>. A native function prints as its source text, \<open>function f() { [native
  code] }\<close> with its name \<open>f\<close> (the \<open>constructor\<close> property is the function \<open>Object\<close>);
  \<open>Object.prototype\<close> prints as \<open>[object Object]\<close>.
\<close>

definition native_source :: "string \<Rightarrow> string" where
  "native_source k =
     ''function '' @ (if k = ''constructor'' then ''Object'' else k) @ ''() { [native code] }''"

definition inherited_text :: "string \<Rightarrow> string option" where
  "inherited_text k =
     (if k = ''__proto__'' then Some ''[object Object]''
      else if k \<in> set prototype_methods then Some (native_source k)
      else None)"

text \<open>
  \<open>(c || 0) + 1\<close> for a value \<open>c\<close> the object owns: a number is incremented (\<open>c || 0\<close> is
  \<open>c\<close> for every number, as the only falsy one is 0 itself), a non-empty string has
  \<open>"1"\<close> appended. For a key the object does not own, the value is \<open>0 + 1\<close> unless the key
  is inherited.
\<close>

fun plus_one :: "jsvalue \<Rightarrow> jsvalue" where
  "plus_one (Num c) = Num (c + 1)"
| "plus_one (Str s) = (if truthy s then Str (s @ ''1'') else Num (0 + 1))"

definition first_count :: "string \<Rightarrow> jsvalue" where
  "first_count k =
     (case inherited_text k of None \<Rightarrow> Num (0 + 1) | Some text \<Rightarrow> Str (text @ ''1''))"

text \<open>
  \<open>voteCounts[k] = (voteCounts[k] || 0) + 1\<close>. The assignment to a key the object owns
  replaces the value in place; to any other key but \<open>__proto__\<close> it adds an own property
  last (the inherited methods are writable data properties, so they are shadowed). The
  assignment to \<open>__proto__\<close> calls the inherited setter, which ignores a value that is
  neither an object nor \<open>null\<close>: the value here is the string \<open>[object Object]1\<close>, and
  nothing is stored.
\<close>

fun bump_own :: "string \<Rightarrow> (string \<times> jsvalue) list \<Rightarrow> (string \<times> jsvalue) list" where
  "bump_own k [] = [(k, first_count k)]"
| "bump_own k ((k', c) # voteCounts) =
     (if k' = k then (k', plus_one c) # voteCounts else (k', c) # bump_own k voteCounts)"

definition bump :: "string \<Rightarrow> (string \<times> jsvalue) list \<Rightarrow> (string \<times> jsvalue) list" where
  "bump k voteCounts = (if k = ''__proto__'' then voteCounts else bump_own k voteCounts)"

definition count_votes :: "vote list \<Rightarrow> (string \<times> jsvalue) list" where
  "count_votes vs = foldl (\<lambda>voteCounts v. bump (votedPlayerId v) voteCounts) [] vs"

text \<open>
  The loop over \<open>Object.entries(voteCounts)\<close> with its two variables \<open>maxVotes\<close> and
  \<open>winners\<close>. For a string \<open>count\<close>, \<open>count > maxVotes\<close> converts the string to a number
  and \<open>count === maxVotes\<close> is false. Every string the tally stores is the source text of
  a native function followed by 1s (\<open>count_votes_strings\<close> below), which converts to
  \<open>NaN\<close>: neither test holds and the entry is passed over.
\<close>

fun tally_step :: "nat \<times> string list \<Rightarrow> string \<times> jsvalue \<Rightarrow> nat \<times> string list" where
  "tally_step (maxVotes, winners) (k, Num count) =
     (if count > maxVotes then (count, [k])
      else if count = maxVotes then (maxVotes, winners @ [k])
      else (maxVotes, winners))"
| "tally_step (maxVotes, winners) (k, Str s) = (maxVotes, winners)"

definition pick_winners :: "(string \<times> jsvalue) list \<Rightarrow> string list" where
  "pick_winners voteCounts = snd (foldl tally_step (0, []) (object_entries voteCounts))"

text \<open>\<open>const p = room.players.find(p => p.id === winnerId); if (p) p.points += 1\<close>,
  for each winner in turn.\<close>

definition award_point :: "player list \<Rightarrow> string \<Rightarrow> player list" where
  "award_point ps winnerId =
     (case findIndex (\<lambda>p. p_id p = winnerId) ps of
        None \<Rightarrow> ps
      | Some i \<Rightarrow> ps[i := (ps ! i)\<lparr>points := points (ps ! i) + 1\<rparr>])"

definition award_points :: "player list \<Rightarrow> string list \<Rightarrow> player list" where
  "award_points ps winners = foldl award_point ps winners"

definition first_winner :: "string list \<Rightarrow> string option" where
  "first_winner winners = (case winners of [] \<Rightarrow> None | w # _ \<Rightarrow> Some w)"

section \<open>The handlers on one room\<close>

text \<open>Each function is the body a handler runs once \<open>rooms.get(roomId)\<close> has found the
  room: it returns the room as the handler leaves it and the events it broadcasts to the
  room with \<open>io.to(roomId).emit\<close>.\<close>

text \<open>The room object \<open>create-room\<close> builds.\<close>

definition new_room :: "socket \<Rightarrow> string \<Rightarrow> string \<Rightarrow> room" where
  "new_room sock rid playerName' =
     \<lparr> r_id = rid, hostId = s_id sock,
       players = [\<lparr> p_id = s_id sock, p_sessionId = s_sessionId sock,
                    name = playerName', points = 0 \<rparr>],
       status = Lobby, currentRound = 0, maxRounds = 10, topic = [],
       submissions = [], votes = [], winnerOfLastRound = Some (s_id sock) \<rparr>"

text \<open>The rebinding both reconnection paths perform:
  \<open>player = room.players.find(p => p.sessionId === socket.sessionId); player.id = socket.id\<close>.
  \<open>None\<close> when no player has the session.\<close>

definition rebind :: "socket \<Rightarrow> room \<Rightarrow> room option" where
  "rebind sock r =
     (case findIndex (\<lambda>p. p_sessionId p = s_sessionId sock) (players r) of
        None \<Rightarrow> None
      | Some i \<Rightarrow> Some (r\<lparr>players := (players r)[i := (players r ! i)\<lparr>p_id := s_id sock\<rparr>]\<rparr>))"

text \<open>\<open>start-game\<close>: guarded by \<open>room.hostId === socket.id\<close> alone.\<close>

definition start_game :: "socket \<Rightarrow> room \<Rightarrow> room \<times> event list" where
  "start_game sock r =
     (if hostId r = s_id sock then
        (let r' = r\<lparr>status := TopicSelection, currentRound := 1\<rparr>
         in (r', [Ev_game_started r']))
      else (r, []))"

text \<open>\<open>submit-topic\<close>: guarded by
  \<open>room.winnerOfLastRound === socket.id || room.hostId === socket.id && !room.winnerOfLastRound\<close>.\<close>

definition is_judge :: "socket \<Rightarrow> room \<Rightarrow> bool" where
  "is_judge sock r =
     (winnerOfLastRound r = Some (s_id sock) \<or>
      (hostId r = s_id sock \<and>
       (case winnerOfLastRound r of None \<Rightarrow> True | Some w \<Rightarrow> \<not> truthy w)))"

definition submit_topic :: "socket \<Rightarrow> string \<Rightarrow> room \<Rightarrow> room \<times> event list" where
  "submit_topic sock topic' r =
     (if is_judge sock r then
        (let r' = r\<lparr>topic := topic', status := GifSelection, submissions := []\<rparr>
         in (r', [Ev_topic_submitted r']))
      else (r, []))"

text \<open>\<open>submit-gif\<close>: the caller's submission is overwritten when one exists, pushed
  otherwise; then the quorum test.\<close>

definition upsert_submission :: "string \<Rightarrow> string \<Rightarrow> submission list \<Rightarrow> submission list" where
  "upsert_submission caller gifUrl' subs =
     (case findIndex (\<lambda>s. playerId s = caller) subs of
        Some existingIdx \<Rightarrow> subs[existingIdx := (subs ! existingIdx)\<lparr>gifUrl := gifUrl'\<rparr>]
      | None \<Rightarrow> subs @ [\<lparr> playerId = caller, gifUrl = gifUrl' \<rparr>])"

definition submit_gif :: "socket \<Rightarrow> string \<Rightarrow> room \<Rightarrow> room \<times> event list" where
  "submit_gif sock gifUrl' r =
     (if status r = GifSelection then
        (let r1 = r\<lparr>submissions := upsert_submission (s_id sock) gifUrl' (submissions r)\<rparr>
         in if length (submissions r1) = length (players r1) then
              (let r2 = r1\<lparr>status := Voting, votes := []\<rparr>
               in (r2, [Ev_all_gifs_submitted r2]))
            else (r1, [Ev_gif_submitted (length (players r1)) (length (submissions r1))]))
      else (r, []))"

text \<open>\<open>submit-vote\<close>: a self-vote returns at once; otherwise the caller's vote is
  overwritten or pushed, and the round is tallied when every seat has a vote.\<close>

definition upsert_vote :: "string \<Rightarrow> string \<Rightarrow> vote list \<Rightarrow> vote list" where
  "upsert_vote caller voted vs =
     (case findIndex (\<lambda>v. voterId v = caller) vs of
        Some existingVoteIdx \<Rightarrow> vs[existingVoteIdx := (vs ! existingVoteIdx)\<lparr>votedPlayerId := voted\<rparr>]
      | None \<Rightarrow> vs @ [\<lparr> voterId = caller, votedPlayerId = voted \<rparr>])"

definition tally :: "room \<Rightarrow> room \<times> event list" where
  "tally r1 =
     (let voteCounts = count_votes (votes r1);
          winners = pick_winners voteCounts;
          r2 = r1\<lparr>players := award_points (players r1) winners\<rparr>;
          r3 = r2\<lparr>winnerOfLastRound := first_winner winners, status := Reveal\<rparr>;
          r4 = (if currentRound r3 \<ge> maxRounds r3 then r3\<lparr>status := GameOver\<rparr> else r3)
      in (r4, [Ev_round_ended r4 winners voteCounts]))"

definition submit_vote :: "socket \<Rightarrow> string \<Rightarrow> room \<Rightarrow> room \<times> event list" where
  "submit_vote sock voted r =
     (if status r = Voting then
        (if voted = s_id sock then (r, [])
         else
           (let r1 = r\<lparr>votes := upsert_vote (s_id sock) voted (votes r)\<rparr>
            in if length (votes r1) = length (players r1) then tally r1
               else (r1, [Ev_vote_submitted (length (players r1)) (length (votes r1))])))
      else (r, []))"

text \<open>\<open>next-round\<close>: guarded by \<open>room.status === 'reveal'\<close> alone.\<close>

definition next_round :: "socket \<Rightarrow> room \<Rightarrow> room \<times> event list" where
  "next_round sock r =
     (if status r = Reveal then
        (let r' = r\<lparr>currentRound := currentRound r + 1, status := TopicSelection,
                     submissions := [], votes := []\<rparr>
         in (r', [Ev_new_round r']))
      else (r, []))"

section \<open>The handlers on the server state\<close>

definition SESSION_EXPIRY :: int where
  "SESSION_EXPIRY = 5 * 60 * 1000"

text \<open>The sweeper, run with the clock's reading: it deletes the sessions whose
  \<open>lastSeen\<close> is older than \<open>SESSION_EXPIRY\<close>, and touches no room.\<close>

definition sweep :: "int \<Rightarrow> state \<Rightarrow> state" where
  "sweep now st =
     st\<lparr>sessions := (\<lambda>k. case sessions st k of
                          None \<Rightarrow> None
                        | Some s \<Rightarrow> if now - lastSeen s > SESSION_EXPIRY then None else Some s)\<rparr>"

text \<open>
  A handler that starts with \<open>const room = rooms.get(roomId); if (room && ...)\<close> does
  nothing for an unknown room; for a known one it runs its body on the room object, which
  stays in the map under the same key.
\<close>

definition with_room ::
  "string \<Rightarrow> (room \<Rightarrow> room \<times> event list) \<Rightarrow> state \<Rightarrow> state \<times> emits" where
  "with_room rid body st =
     (case rooms st rid of
        None \<Rightarrow> (st, [])
      | Some r \<Rightarrow>
          (let (r', evs) = body r
           in (st\<lparr>rooms := (rooms st)(rid \<mapsto> r')\<rparr>, map (\<lambda>e. (To_room rid, e)) evs)))"

text \<open>
  A new connection: the middleware resolves the session (\<open>auth\<close> is
  \<open>socket.handshake.auth.sessionId\<close>, \<open>fresh\<close> the random identifier drawn for an unknown
  one), the connection handler sends the session back, refreshes \<open>lastSeen\<close> and rebinds
  the player of that session in the room the session names.
\<close>

definition on_connection ::
  "string \<Rightarrow> string option \<Rightarrow> int \<Rightarrow> string \<Rightarrow> state \<Rightarrow> state \<times> emits" where
  "on_connection sockId auth now fresh st =
     (let known = (case auth of
                     None \<Rightarrow> None
                   | Some a \<Rightarrow> if truthy a then map_option (\<lambda>s. (a, s)) (sessions st a) else None);
          sessId = (case known of Some (a, s) \<Rightarrow> a | None \<Rightarrow> fresh);
          sockRoom = (case known of Some (a, s) \<Rightarrow> roomId s | None \<Rightarrow> None);
          sock = \<lparr> s_id = sockId, s_sessionId = sessId \<rparr>;
          st1 = st\<lparr>sessions := (sessions st)(sessId \<mapsto>
                  (case sessions st sessId of
                     Some s \<Rightarrow> s\<lparr>lastSeen := now\<rparr>
                   | None \<Rightarrow> \<lparr> socketId = None, roomId = None, playerName = None,
                               lastSeen = now \<rparr>))\<rparr>;
          hello = [(To_socket sockId, Ev_session sessId)]
      in case sockRoom of
           None \<Rightarrow> (st1, hello)
         | Some rid \<Rightarrow>
             if \<not> truthy rid then (st1, hello)
             else (case rooms st1 rid of
                     None \<Rightarrow> (st1, hello)
                   | Some r \<Rightarrow>
                       (case rebind sock r of
                          None \<Rightarrow> (st1, hello)
                        | Some r' \<Rightarrow>
                            (st1\<lparr>rooms := (rooms st1)(rid \<mapsto> r')\<rparr>,
                             hello @ [(To_socket sockId, Ev_player_joined r'),
                                      (To_room rid, Ev_player_joined r')]))))"

text \<open>\<open>create-room\<close>; \<open>rid\<close> is the identifier \<open>generateRoomId()\<close> drew.\<close>

definition on_create_room ::
  "socket \<Rightarrow> string \<Rightarrow> string \<Rightarrow> int \<Rightarrow> state \<Rightarrow> state \<times> emits" where
  "on_create_room sock rid playerName' now st =
     (let r = new_room sock rid playerName'
      in (st\<lparr>rooms := (rooms st)(rid \<mapsto> r),
              sessions := (sessions st)(s_sessionId sock \<mapsto>
                 \<lparr> socketId = Some (s_id sock), roomId = Some rid,
                   playerName = Some playerName', lastSeen = now \<rparr>)\<rparr>,
          [(To_socket (s_id sock), Ev_room_created r)]))"

text \<open>\<open>join-room\<close>: the branch for a session that already has a seat comes before the
  test of the phase.\<close>

definition on_join_room ::
  "socket \<Rightarrow> string \<Rightarrow> string \<Rightarrow> int \<Rightarrow> state \<Rightarrow> state \<times> emits" where
  "on_join_room sock rid playerName' now st =
     (case rooms st rid of
        None \<Rightarrow> (st, [(To_socket (s_id sock), Ev_error ''Room not found'')])
      | Some r \<Rightarrow>
          (case rebind sock r of
             Some r' \<Rightarrow>
               (st\<lparr>rooms := (rooms st)(rid \<mapsto> r')\<rparr>, [(To_room rid, Ev_player_joined r')])
           | None \<Rightarrow>
               if status r \<noteq> Lobby then
                 (st, [(To_socket (s_id sock), Ev_error ''Game already started'')])
               else
                 (let r' = r\<lparr>players := players r @
                             [\<lparr> p_id = s_id sock, p_sessionId = s_sessionId sock,
                                name = playerName', points = 0 \<rparr>]\<rparr>
                  in (st\<lparr>rooms := (rooms st)(rid \<mapsto> r'),
                          sessions := (sessions st)(s_sessionId sock \<mapsto>
                             \<lparr> socketId = Some (s_id sock), roomId = Some rid,
                               playerName = Some playerName', lastSeen = now \<rparr>)\<rparr>,
                      [(To_room rid, Ev_player_joined r')]))))"

definition on_start_game :: "socket \<Rightarrow> string \<Rightarrow> state \<Rightarrow> state \<times> emits" where
  "on_start_game sock rid st = with_room rid (start_game sock) st"

definition on_submit_topic :: "socket \<Rightarrow> string \<Rightarrow> string \<Rightarrow> state \<Rightarrow> state \<times> emits" where
  "on_submit_topic sock rid topic' st = with_room rid (submit_topic sock topic') st"

definition on_submit_gif :: "socket \<Rightarrow> string \<Rightarrow> string \<Rightarrow> state \<Rightarrow> state \<times> emits" where
  "on_submit_gif sock rid gifUrl' st = with_room rid (submit_gif sock gifUrl') st"

definition on_submit_vote :: "socket \<Rightarrow> string \<Rightarrow> string \<Rightarrow> state \<Rightarrow> state \<times> emits" where
  "on_submit_vote sock rid voted st = with_room rid (submit_vote sock voted) st"

definition on_next_round :: "socket \<Rightarrow> string \<Rightarrow> state \<Rightarrow> state \<times> emits" where
  "on_next_round sock rid st = with_room rid (next_round sock) st"

section \<open>Runs of the server\<close>

text \<open>What can happen to the server: a connection, one of the seven client actions
  (each with the calling socket and its payload), or a pass of the sweeper. An action
  may come from any socket, with any handle and session: the runs include every run of
  the real server, where a handle belongs to one connection and a connection to one
  session.\<close>

datatype action =
    Connection string "string option" int string
  | CreateRoom socket string string int
  | JoinRoom socket string string int
  | StartGame socket string
  | SubmitTopic socket string string
  | SubmitGif socket string string
  | SubmitVote socket string string
  | NextRound socket string
  | Sweep int

fun step :: "state \<Rightarrow> action \<Rightarrow> state \<times> emits" where
  "step st (Connection sockId auth now fresh) = on_connection sockId auth now fresh st"
| "step st (CreateRoom sock rid playerName' now) = on_create_room sock rid playerName' now st"
| "step st (JoinRoom sock rid playerName' now) = on_join_room sock rid playerName' now st"
| "step st (StartGame sock rid) = on_start_game sock rid st"
| "step st (SubmitTopic sock rid topic') = on_submit_topic sock rid topic' st"
| "step st (SubmitGif sock rid gifUrl') = on_submit_gif sock rid gifUrl' st"
| "step st (SubmitVote sock rid voted) = on_submit_vote sock rid voted st"
| "step st (NextRound sock rid) = on_next_round sock rid st"
| "step st (Sweep now) = (sweep now st, [])"

definition init :: state where
  "init = \<lparr> rooms = Map.empty, sessions = Map.empty \<rparr>"

text \<open>The state after a sequence of actions, and the states some sequence reaches.\<close>

definition run :: "state \<Rightarrow> action list \<Rightarrow> state" where
  "run st acts = foldl (\<lambda>s a. fst (step s a)) st acts"

inductive reachable :: "state \<Rightarrow> bool" where
  reachable_init: "reachable init"
| reachable_step: "reachable st \<Longrightarrow> reachable (fst (step st a))"

section \<open>Notions used to state the properties\<close>

text \<open>How often a handle occurs as \<open>votedPlayerId\<close> among stored votes.\<close>

definition occurrences :: "vote list \<Rightarrow> string \<Rightarrow> nat" where
  "occurrences vs k = length (filter (\<lambda>v. votedPlayerId v = k) vs)"

text \<open>The numbers among the values of the tally object.\<close>

fun numeric_counts :: "(string \<times> jsvalue) list \<Rightarrow> nat list" where
  "numeric_counts [] = []"
| "numeric_counts ((k, Num c) # es) = c # numeric_counts es"
| "numeric_counts ((k, Str s) # es) = numeric_counts es"

text \<open>A property of every room the server holds.\<close>

definition all_rooms :: "(room \<Rightarrow> bool) \<Rightarrow> state \<Rightarrow> bool" where
  "all_rooms P st = (\<forall>rid r. rooms st rid = Some r \<longrightarrow> P r)"

text \<open>The bound on the submissions: a room has a seat, never more submissions than
  seats, and strictly fewer while it is still collecting them.\<close>

definition seats_inv :: "room \<Rightarrow> bool" where
  "seats_inv r =
     (0 < length (players r) \<and> length (submissions r) \<le> length (players r) \<and>
      (status r = GifSelection \<longrightarrow> length (submissions r) < length (players r)))"

definition no_self_vote :: "room \<Rightarrow> bool" where
  "no_self_vote r = (\<forall>v\<in>set (votes r). voterId v \<noteq> votedPlayerId v)"

section \<open>Sample runs\<close>

text \<open>Three players on their first connections, the second connection of the second
  player, and a connection that never joins the room.\<close>

definition ann :: socket where "ann = \<lparr> s_id = ''a1'', s_sessionId = ''sa'' \<rparr>"
definition bob :: socket where "bob = \<lparr> s_id = ''b1'', s_sessionId = ''sb'' \<rparr>"
definition cy :: socket where "cy = \<lparr> s_id = ''c1'', s_sessionId = ''sc'' \<rparr>"
definition bob2 :: socket where "bob2 = \<lparr> s_id = ''b2'', s_sessionId = ''sb'' \<rparr>"
definition eve :: socket where "eve = \<lparr> s_id = ''e1'', s_sessionId = ''se'' \<rparr>"

text \<open>Ann connects and creates room 100000; she is alone in the lobby.\<close>

definition demo_alone :: state where
  "demo_alone = run init
     [Connection ''a1'' None 0 ''sa'', CreateRoom ann ''100000'' ''Ann'' 1]"

text \<open>Bob joins, Ann starts the game and sets the topic, Ann submits her GIF: the room
  waits for Bob's. Eve is connected but has no seat.\<close>

definition demo_gifs :: state where
  "demo_gifs = run demo_alone
     [Connection ''b1'' None 2 ''sb'', JoinRoom bob ''100000'' ''Bob'' 3,
      StartGame ann ''100000'', SubmitTopic ann ''100000'' ''X'',
      Connection ''e1'' None 4 ''se'', SubmitGif ann ''100000'' ''g1'']"

text \<open>A room of three in the voting phase, with the votes of Ann and Cy (both for Bob)
  stored and Bob's vote outstanding.\<close>

definition demo_voting :: state where
  "demo_voting = run demo_alone
     [Connection ''b1'' None 2 ''sb'', JoinRoom bob ''100000'' ''Bob'' 3,
      Connection ''c1'' None 4 ''sc'', JoinRoom cy ''100000'' ''Cy'' 5,
      StartGame ann ''100000'', SubmitTopic ann ''100000'' ''X'',
      SubmitGif ann ''100000'' ''g1'', SubmitGif bob ''100000'' ''g2'',
      SubmitGif cy ''100000'' ''g3'',
      SubmitVote ann ''100000'' ''b1'', SubmitVote cy ''100000'' ''b1'']"

text \<open>The room of two in its voting phase, Bob's GIF in and Ann's vote stored: she
  voted for \<open>e1\<close>, the handle of Eve's connection, which has no seat.\<close>

definition demo_outsider_vote :: state where
  "demo_outsider_vote = run demo_gifs
     [SubmitGif bob ''100000'' ''g2'', SubmitVote ann ''100000'' ''e1'']"

text \<open>A room of three collecting GIFs: Bob has submitted, then his connection dropped
  and came back with his session, so that his seat now carries the handle \<open>b2\<close>.\<close>

definition demo_resubmit :: state where
  "demo_resubmit = run demo_alone
     [Connection ''b1'' None 2 ''sb'', JoinRoom bob ''100000'' ''Bob'' 3,
      Connection ''c1'' None 4 ''sc'', JoinRoom cy ''100000'' ''Cy'' 5,
      StartGame ann ''100000'', SubmitTopic ann ''100000'' ''X'',
      SubmitGif bob ''100000'' ''g2'', Connection ''b2'' (Some ''sb'') 6 ''zz'']"

text \<open>The room of three after Bob's vote for Ann closed the round: the reveal phase.\<close>

definition demo_reveal :: state where
  "demo_reveal = run demo_voting [SubmitVote bob ''100000'' ''a1'']"

text \<open>A room of two playing round after round: each round both players offer a topic
  (the one who is not the judge is ignored), both submit, each votes for the other, and
  Ann moves on. After nine rounds the tenth is one vote short of its end.\<close>

definition one_round :: "action list" where
  "one_round =
     [SubmitTopic ann ''100000'' ''X'', SubmitTopic bob ''100000'' ''X'',
      SubmitGif ann ''100000'' ''g1'', SubmitGif bob ''100000'' ''g2'',
      SubmitVote ann ''100000'' ''b1'', SubmitVote bob ''100000'' ''a1'',
      NextRound ann ''100000'']"

definition demo_last_round :: state where
  "demo_last_round = run demo_alone
     ([Connection ''b1'' None 2 ''sb'', JoinRoom bob ''100000'' ''Bob'' 3,
       StartGame ann ''100000''] @ concat (replicate 9 one_round) @
      [SubmitTopic ann ''100000'' ''X'', SubmitTopic bob ''100000'' ''X'',
       SubmitGif ann ''100000'' ''g1'', SubmitGif bob ''100000'' ''g2'',
       SubmitVote ann ''100000'' ''b1''])"

text \<open>The room object in each of these states.\<close>

definition room_alone :: room where
  "room_alone =
     \<lparr>r_id = ''100000'', hostId = ''a1'',
      players = [\<lparr>p_id = ''a1'', p_sessionId = ''sa'', name = ''Ann'', points = 0\<rparr>],
      status = Lobby, currentRound = 0, maxRounds = 10, topic = [],
      submissions = [], votes = [], winnerOfLastRound = Some ''a1''\<rparr>"

definition room_gifs :: room where
  "room_gifs =
     \<lparr>r_id = ''100000'', hostId = ''a1'',
      players = [\<lparr>p_id = ''a1'', p_sessionId = ''sa'', name = ''Ann'', points = 0\<rparr>,
                 \<lparr>p_id = ''b1'', p_sessionId = ''sb'', name = ''Bob'', points = 0\<rparr>],
      status = GifSelection, currentRound = 1, maxRounds = 10, topic = ''X'',
      submissions = [\<lparr>playerId = ''a1'', gifUrl = ''g1''\<rparr>], votes = [],
      winnerOfLastRound = Some ''a1''\<rparr>"

definition room_voting :: room where
  "room_voting =
     \<lparr>r_id = ''100000'', hostId = ''a1'',
      players = [\<lparr>p_id = ''a1'', p_sessionId = ''sa'', name = ''Ann'', points = 0\<rparr>,
                 \<lparr>p_id = ''b1'', p_sessionId = ''sb'', name = ''Bob'', points = 0\<rparr>,
                 \<lparr>p_id = ''c1'', p_sessionId = ''sc'', name = ''Cy'', points = 0\<rparr>],
      status = Voting, currentRound = 1, maxRounds = 10, topic = ''X'',
      submissions = [\<lparr>playerId = ''a1'', gifUrl = ''g1''\<rparr>,
                     \<lparr>playerId = ''b1'', gifUrl = ''g2''\<rparr>,
                     \<lparr>playerId = ''c1'', gifUrl = ''g3''\<rparr>],
      votes = [\<lparr>voterId = ''a1'', votedPlayerId = ''b1''\<rparr>,
               \<lparr>voterId = ''c1'', votedPlayerId = ''b1''\<rparr>],
      winnerOfLastRound = Some ''a1''\<rparr>"

definition room_outsider_vote :: room where
  "room_outsider_vote =
     \<lparr>r_id = ''100000'', hostId = ''a1'',
      players = [\<lparr>p_id = ''a1'', p_sessionId = ''sa'', name = ''Ann'', points = 0\<rparr>,
                 \<lparr>p_id = ''b1'', p_sessionId = ''sb'', name = ''Bob'', points = 0\<rparr>],
      status = Voting, currentRound = 1, maxRounds = 10, topic = ''X'',
      submissions = [\<lparr>playerId = ''a1'', gifUrl = ''g1''\<rparr>,
                     \<lparr>playerId = ''b1'', gifUrl = ''g2''\<rparr>],
      votes = [\<lparr>voterId = ''a1'', votedPlayerId = ''e1''\<rparr>],
      winnerOfLastRound = Some ''a1''\<rparr>"

definition room_resubmit :: room where
  "room_resubmit =
     \<lparr>r_id = ''100000'', hostId = ''a1'',
      players = [\<lparr>p_id = ''a1'', p_sessionId = ''sa'', name = ''Ann'', points = 0\<rparr>,
                 \<lparr>p_id = ''b2'', p_sessionId = ''sb'', name = ''Bob'', points = 0\<rparr>,
                 \<lparr>p_id = ''c1'', p_sessionId = ''sc'', name = ''Cy'', points = 0\<rparr>],
      status = GifSelection, currentRound = 1, maxRounds = 10, topic = ''X'',
      submissions = [\<lparr>playerId = ''b1'', gifUrl = ''g2''\<rparr>], votes = [],
      winnerOfLastRound = Some ''a1''\<rparr>"

definition room_reveal :: room where
  "room_reveal =
     \<lparr>r_id = ''100000'', hostId = ''a1'',
      players = [\<lparr>p_id = ''a1'', p_sessionId = ''sa'', name = ''Ann'', points = 0\<rparr>,
                 \<lparr>p_id = ''b1'', p_sessionId = ''sb'', name = ''Bob'', points = 1\<rparr>,
                 \<lparr>p_id = ''c1'', p_sessionId = ''sc'', name = ''Cy'', points = 0\<rparr>],
      status = Reveal, currentRound = 1, maxRounds = 10, topic = ''X'',
      submissions = [\<lparr>playerId = ''a1'', gifUrl = ''g1''\<rparr>,
                     \<lparr>playerId = ''b1'', gifUrl = ''g2''\<rparr>,
                     \<lparr>playerId = ''c1'', gifUrl = ''g3''\<rparr>],
      votes = [\<lparr>voterId = ''a1'', votedPlayerId = ''b1''\<rparr>,
               \<lparr>voterId = ''c1'', votedPlayerId = ''b1''\<rparr>,
               \<lparr>voterId = ''b1'', votedPlayerId = ''a1''\<rparr>],
      winnerOfLastRound = Some ''b1''\<rparr>"

definition room_last_round :: room where
  "room_last_round =
     \<lparr>r_id = ''100000'', hostId = ''a1'',
      players = [\<lparr>p_id = ''a1'', p_sessionId = ''sa'', name = ''Ann'', points = 9\<rparr>,
                 \<lparr>p_id = ''b1'', p_sessionId = ''sb'', name = ''Bob'', points = 9\<rparr>],
      status = Voting, currentRound = 10, maxRounds = 10, topic = ''X'',
      submissions = [\<lparr>playerId = ''a1'', gifUrl = ''g1''\<rparr>,
                     \<lparr>playerId = ''b1'', gifUrl = ''g2''\<rparr>],
      votes = [\<lparr>voterId = ''a1'', votedPlayerId = ''b1''\<rparr>],
      winnerOfLastRound = Some ''b1''\<rparr>"

text \<open>Ann and Bob on later connections of their sessions.\<close>

definition ann2 :: socket where "ann2 = \<lparr> s_id = ''a2'', s_sessionId = ''sa'' \<rparr>"
definition bob3 :: socket where "bob3 = \<lparr> s_id = ''b3'', s_sessionId = ''sb'' \<rparr>"

text \<open>Ann's lobby after her connection came back as \<open>a2\<close>.\<close>

definition room_alone_rebound :: room where
  "room_alone_rebound =
     room_alone\<lparr>players := [\<lparr>p_id = ''a2'', p_sessionId = ''sa'', name = ''Ann'', points = 0\<rparr>]\<rparr>"

section \<open>Facts about the library functions\<close>

lemma findIndex_None_iff: "findIndex P xs = None \<longleftrightarrow> (\<forall>x\<in>set xs. \<not> P x)"
  by (induction xs) auto

lemma findIndex_Some_D:
  "findIndex P xs = Some i \<Longrightarrow> i < length xs \<and> P (xs ! i) \<and> (\<forall>j<i. \<not> P (xs ! j))"
proof (induction xs arbitrary: i)
  case Nil
  then show ?case by simp
next
  case (Cons x xs)
  show ?case
  proof (cases "P x")
    case True
    with Cons.prems show ?thesis by simp
  next
    case False
    with Cons.prems obtain j where j: "findIndex P xs = Some j" "i = Suc j"
      by auto
    from Cons.IH[OF j(1)] False j(2) show ?thesis
      by (auto simp: nth_Cons split: nat.splits)
  qed
qed

lemma findIndex_Some_iff: "(\<exists>i. findIndex P xs = Some i) \<longleftrightarrow> (\<exists>x\<in>set xs. P x)"
  using findIndex_None_iff[of P xs] by (cases "findIndex P xs") auto

lemma first_count_plain: "k \<notin> set prototype_names \<Longrightarrow> first_count k = Num 1"
  by (simp add: first_count_def inherited_text_def prototype_names_def)

lemma bump_plain: "k \<notin> set prototype_names \<Longrightarrow> bump k vc = bump_own k vc"
  by (simp add: bump_def prototype_names_def)

lemma map_of_bump_own:
  "map_of (bump_own k vc) k' =
     (if k' = k then Some (case map_of vc k of None \<Rightarrow> first_count k | Some c \<Rightarrow> plus_one c)
      else map_of vc k')"
  by (induction vc) auto

lemma keys_bump_own:
  "map fst (bump_own k vc) = (if k \<in> set (map fst vc) then map fst vc else map fst vc @ [k])"
  by (induction vc) (force+)

lemma distinct_bump: "distinct (map fst vc) \<Longrightarrow> distinct (map fst (bump k vc))"
  by (simp add: bump_def keys_bump_own)

lemma count_votes_snoc: "count_votes (vs @ [v]) = bump (votedPlayerId v) (count_votes vs)"
  by (simp add: count_votes_def)

lemma distinct_count_votes: "distinct (map fst (count_votes vs))"
proof (induction vs rule: rev_induct)
  case Nil
  show ?case by (simp add: count_votes_def)
next
  case (snoc v vs)
  then show ?case by (simp add: count_votes_snoc distinct_bump)
qed

lemma occurrences_snoc:
  "occurrences (vs @ [v]) k = occurrences vs k + (if votedPlayerId v = k then 1 else 0)"
  by (simp add: occurrences_def)

lemma map_of_count_votes:
  assumes "\<forall>v\<in>set vs. votedPlayerId v \<notin> set prototype_names"
  shows "map_of (count_votes vs) k =
     (if occurrences vs k = 0 then None else Some (Num (occurrences vs k)))"
  using assms
proof (induction vs rule: rev_induct)
  case Nil
  show ?case by (simp add: count_votes_def occurrences_def)
next
  case (snoc v vs)
  from snoc.prems have plain: "votedPlayerId v \<notin> set prototype_names"
    and rest: "\<forall>v\<in>set vs. votedPlayerId v \<notin> set prototype_names"
    by simp_all
  note IH = snoc.IH[OF rest]
  show ?case
  proof (cases "votedPlayerId v = k")
    case True
    with plain have pk: "k \<notin> set prototype_names" by simp
    from True IH show ?thesis
      by (simp add: count_votes_snoc bump_plain[OF pk] map_of_bump_own
          first_count_plain[OF pk] occurrences_snoc)
  next
    case False
    with IH show ?thesis
      by (simp add: count_votes_snoc bump_plain[OF plain] map_of_bump_own occurrences_snoc)
  qed
qed

lemma occurrences_0_iff: "occurrences vs k = 0 \<longleftrightarrow> k \<notin> votedPlayerId ` set vs"
  by (auto simp: occurrences_def filter_empty_conv)

lemma set_count_votes:
  assumes "\<forall>v\<in>set vs. votedPlayerId v \<notin> set prototype_names"
  shows "set (count_votes vs) = (\<lambda>k. (k, Num (occurrences vs k))) ` votedPlayerId ` set vs"
proof -
  have "(k, c) \<in> set (count_votes vs) \<longleftrightarrow>
      k \<in> votedPlayerId ` set vs \<and> c = Num (occurrences vs k)" for k c
    using map_of_eq_Some_iff[OF distinct_count_votes, of vs k c]
    by (auto simp: map_of_count_votes[OF assms] occurrences_0_iff split: if_splits)
  then show ?thesis by auto
qed

text \<open>Every string the tally stores is the source text of the native function its key
  inherits, followed by at least one 1: it is no numeral.\<close>

lemma bump_own_strings:
  assumes "\<forall>(k, c)\<in>set vc. \<forall>s. c = Str s \<longrightarrow>
      k \<in> set prototype_methods \<and> (\<exists>n. s = native_source k @ replicate (Suc n) CHR ''1'')"
    and "k \<noteq> ''__proto__''"
  shows "\<forall>(k', c)\<in>set (bump_own k vc). \<forall>s. c = Str s \<longrightarrow>
      k' \<in> set prototype_methods \<and> (\<exists>n. s = native_source k' @ replicate (Suc n) CHR ''1'')"
  using assms(1)
proof (induction vc)
  case Nil
  show ?case
    using assms(2) by (auto simp: first_count_def inherited_text_def split: if_splits)
next
  case (Cons e vc)
  obtain k' c where e: "e = (k', c)" by (cases e)
  show ?case
  proof (cases "k' = k")
    case True
    have new: "\<forall>s. plus_one c = Str s \<longrightarrow>
        k \<in> set prototype_methods \<and> (\<exists>n. s = native_source k @ replicate (Suc n) CHR ''1'')"
    proof (cases c)
      case (Num n)
      then show ?thesis by simp
    next
      case (Str t)
      with Cons.prems True e obtain n
        where k: "k \<in> set prototype_methods"
          and t: "t = native_source k @ replicate (Suc n) CHR ''1''"
        by auto
      have longer: "t @ ''1'' = native_source k @ replicate (Suc (Suc n)) CHR ''1''"
        unfolding t by (simp add: replicate_append_same)
      have "truthy t" unfolding t by (simp add: truthy_def)
      with Str have "plus_one c = Str (t @ ''1'')" by simp
      with k longer show ?thesis by (metis jsvalue.inject(2))
    qed
    with True Cons.prems show ?thesis by (auto simp: e)
  next
    case False
    with Cons show ?thesis by (auto simp: e)
  qed
qed

lemma count_votes_strings:
  "(k, Str s) \<in> set (count_votes vs) \<Longrightarrow>
     k \<in> set prototype_methods \<and> (\<exists>n. s = native_source k @ replicate (Suc n) CHR ''1'')"
proof -
  have "\<forall>(k, c)\<in>set (count_votes vs). \<forall>s. c = Str s \<longrightarrow>
      k \<in> set prototype_methods \<and> (\<exists>n. s = native_source k @ replicate (Suc n) CHR ''1'')"
  proof (induction vs rule: rev_induct)
    case Nil
    show ?case by (simp add: count_votes_def)
  next
    case (snoc v vs)
    show ?case
    proof (cases "votedPlayerId v = ''__proto__''")
      case True
      with snoc show ?thesis by (simp add: count_votes_snoc bump_def)
    next
      case False
      from bump_own_strings[OF snoc.IH False] False show ?thesis
        by (simp add: count_votes_snoc bump_def)
    qed
  qed
  then show "(k, Str s) \<in> set (count_votes vs) \<Longrightarrow>
     k \<in> set prototype_methods \<and> (\<exists>n. s = native_source k @ replicate (Suc n) CHR ''1'')"
    by auto
qed

lemma set_object_entries: "set (object_entries obj) = set obj"
  by (auto simp: object_entries_def)

lemma distinct_object_entries:
  assumes "distinct (map fst obj)"
  shows "distinct (map fst (object_entries obj))"
proof -
  from assms have d: "distinct obj" and inj: "inj_on fst (set obj)"
    by (simp_all add: distinct_map)
  have "distinct (object_entries obj)"
    using d by (auto simp: object_entries_def)
  with inj show ?thesis
    by (simp add: distinct_map set_object_entries)
qed

lemma set_numeric_counts: "set (numeric_counts es) = {c. \<exists>k. (k, Num c) \<in> set es}"
  by (induction es rule: numeric_counts.induct) auto

lemma foldl_tally_step:
  "foldl tally_step (m, ws) es = (m', ws') \<Longrightarrow>
     m' = Max (insert m (set (numeric_counts es))) \<and>
     set ws' = (if m' = m then set ws else {}) \<union> {k. (k, Num m') \<in> set es}"
proof (induction es arbitrary: m ws)
  case Nil
  then show ?case by auto
next
  case (Cons e es)
  obtain k v where e: "e = (k, v)" by (cases e)
  show ?case
  proof (cases v)
    case (Str s)
    with Cons.prems have "foldl tally_step (m, ws) es = (m', ws')" by (simp add: e)
    from Cons.IH[OF this] show ?thesis by (simp add: e Str)
  next
    case (Num c)
    have fin: "finite (set (numeric_counts es))" by simp
    have nums: "set (numeric_counts (e # es)) = insert c (set (numeric_counts es))"
      by (simp add: e Num)
    have mem: "{k'. (k', Num m') \<in> set (e # es)} =
        (if c = m' then {k} else {}) \<union> {k'. (k', Num m') \<in> set es}"
      by (auto simp: e Num)
    consider (gt) "c > m" | (eq) "c = m" | (lt) "c < m" by linarith
    then show ?thesis
    proof cases
      case gt
      with Cons.prems have "foldl tally_step (c, [k]) es = (m', ws')" by (simp add: e Num)
      from Cons.IH[OF this]
      have m': "m' = Max (insert c (set (numeric_counts es)))"
        and ws': "set ws' = (if m' = c then {k} else {}) \<union> {k. (k, Num m') \<in> set es}"
        by simp_all
      have ge: "m' \<ge> c" unfolding m' using fin by (simp add: Max_ge_iff)
      have "Max (insert m (set (numeric_counts (e # es)))) = max m m'"
        unfolding nums using fin by (simp add: m')
      with gt ge have 1: "m' = Max (insert m (set (numeric_counts (e # es))))" by simp
      from gt ge ws' have 2: "set ws' = (if m' = m then set ws else {}) \<union>
          {k. (k, Num m') \<in> set (e # es)}"
        unfolding mem by auto
      from 1 2 show ?thesis by simp
    next
      case eq
      with Cons.prems have "foldl tally_step (m, ws @ [k]) es = (m', ws')" by (simp add: e Num)
      from Cons.IH[OF this]
      have m': "m' = Max (insert m (set (numeric_counts es)))"
        and ws': "set ws' = (if m' = m then set (ws @ [k]) else {}) \<union>
            {k. (k, Num m') \<in> set es}"
        by simp_all
      have 1: "m' = Max (insert m (set (numeric_counts (e # es))))"
        unfolding nums using fin eq m' by simp
      from eq ws' have 2: "set ws' = (if m' = m then set ws else {}) \<union>
          {k. (k, Num m') \<in> set (e # es)}"
        unfolding mem by auto
      from 1 2 show ?thesis by simp
    next
      case lt
      with Cons.prems have "foldl tally_step (m, ws) es = (m', ws')" by (simp add: e Num)
      from Cons.IH[OF this]
      have m': "m' = Max (insert m (set (numeric_counts es)))"
        and ws': "set ws' = (if m' = m then set ws else {}) \<union> {k. (k, Num m') \<in> set es}"
        by simp_all
      have ge: "m' \<ge> m" unfolding m' using fin by (simp add: Max_ge_iff)
      have "Max (insert m (set (numeric_counts (e # es)))) = max c m'"
        unfolding nums using fin by (simp add: m' insert_commute)
      with lt ge have 1: "m' = Max (insert m (set (numeric_counts (e # es))))" by simp
      from lt ge ws' have 2: "set ws' = (if m' = m then set ws else {}) \<union>
          {k. (k, Num m') \<in> set (e # es)}"
        unfolding mem by auto
      from 1 2 show ?thesis by simp
    qed
  qed
qed

lemma foldl_tally_step_distinct:
  "foldl tally_step (m, ws) es = (m', ws') \<Longrightarrow> distinct (map fst es) \<Longrightarrow> distinct ws \<Longrightarrow>
     set ws \<inter> fst ` set es = {} \<Longrightarrow> distinct ws'"
proof (induction es arbitrary: m ws)
  case Nil
  then show ?case by simp
next
  case (Cons e es)
  obtain k v where e: "e = (k, v)" by (cases e)
  from Cons.prems(2) have k: "k \<notin> fst ` set es" and d: "distinct (map fst es)"
    by (simp_all add: e)
  from Cons.prems(4) have kws: "k \<notin> set ws" and disj: "set ws \<inter> fst ` set es = {}"
    by (auto simp: e)
  obtain m1 ws1 where s: "tally_step (m, ws) e = (m1, ws1)" by (cases "tally_step (m, ws) e")
  then have "set ws1 \<subseteq> insert k (set ws)" and "distinct ws1"
    using kws Cons.prems(3) by (cases v; auto simp: e split: if_splits)+
  moreover from this k disj have "set ws1 \<inter> fst ` set es = {}" by auto
  moreover from Cons.prems(1) s have "foldl tally_step (m1, ws1) es = (m', ws')" by simp
  ultimately show ?case using Cons.IH d by blast
qed

lemma numeric_counts_object_entries:
  "set (numeric_counts (object_entries obj)) = set (numeric_counts obj)"
  by (simp add: set_numeric_counts set_object_entries)

lemma pick_winners_set:
  "set (pick_winners voteCounts) =
     {k. (k, Num (Max (insert 0 (set (numeric_counts voteCounts))))) \<in> set voteCounts}"
proof -
  obtain m' ws' where f: "foldl tally_step (0, []) (object_entries voteCounts) = (m', ws')"
    by (cases "foldl tally_step (0, []) (object_entries voteCounts)")
  from foldl_tally_step[OF f] show ?thesis
    by (auto simp: pick_winners_def f set_object_entries numeric_counts_object_entries)
qed

lemma pick_winners_distinct:
  "distinct (map fst voteCounts) \<Longrightarrow> distinct (pick_winners voteCounts)"
proof -
  assume d: "distinct (map fst voteCounts)"
  obtain m' ws' where f: "foldl tally_step (0, []) (object_entries voteCounts) = (m', ws')"
    by (cases "foldl tally_step (0, []) (object_entries voteCounts)")
  from foldl_tally_step_distinct[OF f distinct_object_entries[OF d]] show ?thesis
    by (simp add: pick_winners_def f)
qed

lemma winners_of_votes:
  assumes plain: "\<forall>v\<in>set vs. votedPlayerId v \<notin> set prototype_names"
  shows "set (pick_winners (count_votes vs)) =
     {k \<in> votedPlayerId ` set vs.
        occurrences vs k = Max (occurrences vs ` votedPlayerId ` set vs)}"
proof (cases "vs = []")
  case True
  then show ?thesis by (simp add: pick_winners_set count_votes_def)
next
  case False
  let ?C = "votedPlayerId ` set vs"
  have nums: "set (numeric_counts (count_votes vs)) = occurrences vs ` ?C"
    unfolding set_numeric_counts set_count_votes[OF plain] by auto
  have ne: "occurrences vs ` ?C \<noteq> {}" and fin: "finite (occurrences vs ` ?C)"
    using False by simp_all
  have mx: "Max (insert 0 (occurrences vs ` ?C)) = Max (occurrences vs ` ?C)"
    using ne fin by simp
  have mem: "(k, Num c) \<in> set (count_votes vs) \<longleftrightarrow> k \<in> ?C \<and> c = occurrences vs k" for k c
    unfolding set_count_votes[OF plain] by auto
  show ?thesis
    unfolding pick_winners_set nums mx mem by auto
qed

lemma award_point_Nil: "award_point [] w = []"
  by (simp add: award_point_def)

lemma award_point_Cons:
  "award_point (p # ps) w =
     (if p_id p = w then p\<lparr>points := points p + 1\<rparr> # ps else p # award_point ps w)"
  by (simp add: award_point_def split: option.splits)

lemma length_award_point: "length (award_point ps w) = length ps"
  by (induction ps) (simp_all add: award_point_Nil award_point_Cons)

lemma ids_award_point: "map p_id (award_point ps w) = map p_id ps"
  by (induction ps) (simp_all add: award_point_Nil award_point_Cons)

lemma sum_award_point:
  "sum_list (map points (award_point ps w)) =
     sum_list (map points ps) + (if w \<in> p_id ` set ps then 1 else 0)"
  by (induction ps) (auto simp: award_point_Nil award_point_Cons)

lemma award_point_distinct:
  "distinct (map p_id ps) \<Longrightarrow>
     award_point ps w = map (\<lambda>p. p\<lparr>points := points p + (if p_id p = w then 1 else 0)\<rparr>) ps"
proof (induction ps)
  case Nil
  then show ?case by (simp add: award_point_Nil)
next
  case (Cons p ps)
  show ?case
  proof (cases "p_id p = w")
    case True
    from Cons.prems have "p_id p \<notin> p_id ` set ps" by simp
    with True have "\<forall>q\<in>set ps. p_id q \<noteq> w" by (metis imageI)
    then have "map (\<lambda>p. p\<lparr>points := points p + (if p_id p = w then 1 else 0)\<rparr>) ps = ps"
      by (induction ps) auto
    with True show ?thesis by (simp add: award_point_Cons)
  next
    case False
    with Cons show ?thesis by (simp add: award_point_Cons)
  qed
qed

lemma length_award_points: "length (award_points ps ws) = length ps"
  unfolding award_points_def by (induction ws arbitrary: ps) (simp_all add: length_award_point)

lemma ids_award_points: "map p_id (award_points ps ws) = map p_id ps"
  unfolding award_points_def by (induction ws arbitrary: ps) (simp_all add: ids_award_point)

lemma sum_award_points:
  "sum_list (map points (award_points ps ws)) =
     sum_list (map points ps) + length (filter (\<lambda>w. w \<in> p_id ` set ps) ws)"
  unfolding award_points_def
proof (induction ws arbitrary: ps)
  case Nil
  then show ?case by simp
next
  case (Cons w ws)
  have "p_id ` set (award_point ps w) = p_id ` set ps"
    using ids_award_point[of ps w] by (metis set_map)
  then show ?case
    by (simp add: Cons.IH sum_award_point)
qed

lemma award_points_distinct:
  "distinct (map p_id ps) \<Longrightarrow> distinct ws \<Longrightarrow>
     award_points ps ws =
       map (\<lambda>p. p\<lparr>points := points p + (if p_id p \<in> set ws then 1 else 0)\<rparr>) ps"
  unfolding award_points_def
proof (induction ws arbitrary: ps)
  case Nil
  then show ?case by (simp add: map_idI)
next
  case (Cons w ws)
  let ?ps1 = "award_point ps w"
  have d1: "distinct (map p_id ?ps1)" using Cons.prems(1) by (simp add: ids_award_point)
  from Cons.prems(2) have w: "w \<notin> set ws" and dws: "distinct ws" by simp_all
  have "foldl award_point ?ps1 ws =
          map (\<lambda>p. p\<lparr>points := points p + (if p_id p \<in> set ws then 1 else 0)\<rparr>) ?ps1"
    by (rule Cons.IH[OF d1 dws])
  also have "\<dots> = map (\<lambda>p. p\<lparr>points := points p + (if p_id p \<in> set (w # ws) then 1 else 0)\<rparr>) ps"
    using w by (auto simp: award_point_distinct[OF Cons.prems(1)])
  finally show ?case by simp
qed

lemma count_present_winners:
  "distinct ws \<Longrightarrow> length (filter (\<lambda>w. w \<in> S) ws) = card (set ws \<inter> S)"
proof -
  assume "distinct ws"
  then have "distinct (filter (\<lambda>w. w \<in> S) ws)" by simp
  then have "card (set (filter (\<lambda>w. w \<in> S) ws)) = length (filter (\<lambda>w. w \<in> S) ws)"
    by (rule distinct_card)
  moreover have "set (filter (\<lambda>w. w \<in> S) ws) = set ws \<inter> S" by auto
  ultimately show ?thesis by simp
qed

section \<open>Facts about the handlers\<close>

lemma with_room_Some:
  "rooms st rid = Some r \<Longrightarrow>
     with_room rid body st =
       (st\<lparr>rooms := (rooms st)(rid \<mapsto> fst (body r))\<rparr>, map (\<lambda>e. (To_room rid, e)) (snd (body r)))"
  by (simp add: with_room_def split: prod.splits)

lemma with_room_None: "rooms st rid = None \<Longrightarrow> with_room rid body st = (st, [])"
  by (simp add: with_room_def)

lemma submit_vote_tally:
  "status r = Voting \<Longrightarrow> voted \<noteq> s_id sock \<Longrightarrow>
   length (upsert_vote (s_id sock) voted (votes r)) = length (players r) \<Longrightarrow>
     submit_vote sock voted r = tally (r\<lparr>votes := upsert_vote (s_id sock) voted (votes r)\<rparr>)"
  by (simp add: submit_vote_def Let_def)

lemma fst_tally:
  "fst (tally r) =
     r\<lparr>players := award_points (players r) (pick_winners (count_votes (votes r))),
       winnerOfLastRound := first_winner (pick_winners (count_votes (votes r))),
       status := (if currentRound r \<ge> maxRounds r then GameOver else Reveal)\<rparr>"
  by (simp add: tally_def Let_def)

lemma snd_tally:
  "snd (tally r) =
     [Ev_round_ended (fst (tally r)) (pick_winners (count_votes (votes r))) (count_votes (votes r))]"
  by (simp add: tally_def Let_def)

lemma all_rooms_with_room:
  "all_rooms P st \<Longrightarrow> (\<And>r. P r \<Longrightarrow> P (fst (body r))) \<Longrightarrow>
     all_rooms P (fst (with_room rid body st))"
proof (cases "rooms st rid")
  case None
  assume "all_rooms P st"
  then show ?thesis by (simp add: with_room_None[OF None])
next
  case (Some r)
  assume "all_rooms P st" and "\<And>r. P r \<Longrightarrow> P (fst (body r))"
  with Some show ?thesis by (auto simp: with_room_Some[OF Some] all_rooms_def)
qed

lemma on_connection_rooms:
  "rooms (fst (on_connection sockId auth now fresh st)) rid = Some r' \<Longrightarrow>
     rooms st rid = Some r' \<or>
     (\<exists>r sess. rooms st rid = Some r \<and> rebind \<lparr> s_id = sockId, s_sessionId = sess \<rparr> r = Some r')"
  by (auto simp: on_connection_def Let_def split: option.splits if_splits prod.splits)

lemma on_join_room_rooms:
  "rooms (fst (on_join_room sock rid n now st)) rid' = Some r' \<Longrightarrow>
     rooms st rid' = Some r' \<or>
     (\<exists>r. rooms st rid' = Some r \<and>
        (rebind sock r = Some r' \<or>
         (status r = Lobby \<and>
          r' = r\<lparr>players := players r @
                 [\<lparr> p_id = s_id sock, p_sessionId = s_sessionId sock,
                    name = n, points = 0 \<rparr>]\<rparr>)))"
  by (auto simp: on_join_room_def Let_def split: option.splits if_splits)

lemma award_points_Nil_iff: "award_points ps ws = [] \<longleftrightarrow> ps = []"
  using length_award_points[of ps ws] by (metis length_0_conv)

lemma step_all_rooms:
  assumes new: "\<And>sock rid n. P (new_room sock rid n)"
    and rebind: "\<And>sock r r'. P r \<Longrightarrow> rebind sock r = Some r' \<Longrightarrow> P r'"
    and join: "\<And>(sock::socket) n r. P r \<Longrightarrow> status r = Lobby \<Longrightarrow>
        P (r\<lparr>players := players r @
             [\<lparr> p_id = s_id sock, p_sessionId = s_sessionId sock, name = n, points = 0 \<rparr>]\<rparr>)"
    and start: "\<And>sock r. P r \<Longrightarrow> P (fst (start_game sock r))"
    and topic: "\<And>sock t r. P r \<Longrightarrow> P (fst (submit_topic sock t r))"
    and gif: "\<And>sock g r. P r \<Longrightarrow> P (fst (submit_gif sock g r))"
    and vote: "\<And>sock v r. P r \<Longrightarrow> P (fst (submit_vote sock v r))"
    and nxt: "\<And>sock r. P r \<Longrightarrow> P (fst (next_round sock r))"
    and all: "all_rooms P st"
  shows "all_rooms P (fst (step st a))"
proof (cases a)
  case (Connection sockId auth now fresh)
  show ?thesis
    unfolding Connection step.simps all_rooms_def
    using all rebind on_connection_rooms[of sockId auth now fresh st]
    unfolding all_rooms_def by blast
next
  case (CreateRoom sock rid n now)
  show ?thesis
    unfolding CreateRoom step.simps on_create_room_def Let_def
    using all new by (auto simp: all_rooms_def)
next
  case (JoinRoom sock rid n now)
  show ?thesis
    unfolding JoinRoom step.simps all_rooms_def
    using all rebind join on_join_room_rooms[of sock rid n now st]
    unfolding all_rooms_def by blast
next
  case (StartGame sock rid)
  show ?thesis
    unfolding StartGame step.simps on_start_game_def
    by (rule all_rooms_with_room[OF all start])
next
  case (SubmitTopic sock rid t)
  show ?thesis
    unfolding SubmitTopic step.simps on_submit_topic_def
    by (rule all_rooms_with_room[OF all topic])
next
  case (SubmitGif sock rid g)
  show ?thesis
    unfolding SubmitGif step.simps on_submit_gif_def
    by (rule all_rooms_with_room[OF all gif])
next
  case (SubmitVote sock rid v)
  show ?thesis
    unfolding SubmitVote step.simps on_submit_vote_def
    by (rule all_rooms_with_room[OF all vote])
next
  case (NextRound sock rid)
  show ?thesis
    unfolding NextRound step.simps on_next_round_def
    by (rule all_rooms_with_room[OF all nxt])
next
  case (Sweep now)
  show ?thesis
    unfolding Sweep step.simps using all by (simp add: all_rooms_def sweep_def)
qed

lemma reachable_all_rooms:
  assumes new: "\<And>sock rid n. P (new_room sock rid n)"
    and rebind: "\<And>sock r r'. P r \<Longrightarrow> rebind sock r = Some r' \<Longrightarrow> P r'"
    and join: "\<And>(sock::socket) n r. P r \<Longrightarrow> status r = Lobby \<Longrightarrow>
        P (r\<lparr>players := players r @
             [\<lparr> p_id = s_id sock, p_sessionId = s_sessionId sock, name = n, points = 0 \<rparr>]\<rparr>)"
    and start: "\<And>sock r. P r \<Longrightarrow> P (fst (start_game sock r))"
    and topic: "\<And>sock t r. P r \<Longrightarrow> P (fst (submit_topic sock t r))"
    and gif: "\<And>sock g r. P r \<Longrightarrow> P (fst (submit_gif sock g r))"
    and vote: "\<And>sock v r. P r \<Longrightarrow> P (fst (submit_vote sock v r))"
    and nxt: "\<And>sock r. P r \<Longrightarrow> P (fst (next_round sock r))"
    and reach: "reachable st"
  shows "all_rooms P st"
  using reach
proof (induction rule: reachable.induct)
  case reachable_init
  show ?case by (simp add: all_rooms_def init_def)
next
  case (reachable_step st a)
  show ?case
    by (rule step_all_rooms[of P, OF new rebind join start topic gif vote nxt reachable_step.IH])
qed

lemma run_snoc: "run st (acts @ [a]) = fst (step (run st acts) a)"
  by (simp add: run_def)

lemma reachable_run: "reachable st \<Longrightarrow> reachable (run st acts)"
proof (induction acts rule: rev_induct)
  case Nil
  then show ?case by (simp add: run_def)
next
  case (snoc a acts)
  then show ?case by (simp add: run_snoc reachable_step)
qed

lemma length_upsert_submission:
  "length (upsert_submission c g subs) =
     (if c \<in> playerId ` set subs then length subs else length subs + 1)"
proof (cases "findIndex (\<lambda>s. playerId s = c) subs")
  case None
  then show ?thesis
    using findIndex_None_iff[of "\<lambda>s. playerId s = c" subs]
    by (auto simp: upsert_submission_def)
next
  case (Some i)
  then show ?thesis
    using findIndex_Some_iff[of "\<lambda>s. playerId s = c" subs]
    by (auto simp: upsert_submission_def)
qed

lemma rebind_fields:
  "rebind sock r = Some r' \<Longrightarrow>
     \<exists>i. findIndex (\<lambda>p. p_sessionId p = s_sessionId sock) (players r) = Some i \<and>
         r' = r\<lparr>players := (players r)[i := (players r ! i)\<lparr>p_id := s_id sock\<rparr>]\<rparr>"
  by (auto simp: rebind_def split: option.splits)

lemma seats_inv_reachable:
  assumes "reachable st"
  shows "all_rooms seats_inv st"
proof (rule reachable_all_rooms[OF _ _ _ _ _ _ _ _ assms])
  show "seats_inv (new_room sock rid n)" for sock rid n
    by (simp add: seats_inv_def new_room_def)
  show "seats_inv r'" if "seats_inv r" "rebind sock r = Some r'" for sock r r'
    using that rebind_fields[OF that(2)] by (auto simp: seats_inv_def)
  show "seats_inv (r\<lparr>players := players r @
      [\<lparr> p_id = s_id sock, p_sessionId = s_sessionId sock, name = n, points = 0 \<rparr>]\<rparr>)"
    if "seats_inv r" "status r = Lobby" for sock :: socket and n r
    using that by (simp add: seats_inv_def)
  show "seats_inv (fst (start_game sock r))" if "seats_inv r" for sock r
    using that by (simp add: seats_inv_def start_game_def Let_def)
  show "seats_inv (fst (submit_topic sock t r))" if "seats_inv r" for sock t r
    using that by (simp add: seats_inv_def submit_topic_def Let_def)
  show "seats_inv (fst (submit_gif sock g r))" if "seats_inv r" for sock g r
    using that length_upsert_submission[of "s_id sock" g "submissions r"]
    by (auto simp: seats_inv_def submit_gif_def Let_def split: if_splits)
  show "seats_inv (fst (submit_vote sock v r))" if "seats_inv r" for sock v r
    using that
    by (auto simp: seats_inv_def submit_vote_def Let_def fst_tally award_points_Nil_iff
        length_award_points)
  show "seats_inv (fst (next_round sock r))" if "seats_inv r" for sock r
    using that by (simp add: seats_inv_def next_round_def Let_def)
qed

lemma upsert_vote_no_self:
  assumes "\<forall>v\<in>set vs. voterId v \<noteq> votedPlayerId v" and "voted \<noteq> c"
  shows "\<forall>v\<in>set (upsert_vote c voted vs). voterId v \<noteq> votedPlayerId v"
proof (cases "findIndex (\<lambda>v. voterId v = c) vs")
  case None
  with assms show ?thesis by (simp add: upsert_vote_def)
next
  case (Some i)
  from findIndex_Some_D[OF Some] have i: "i < length vs" "voterId (vs ! i) = c" by simp_all
  have "set (vs[i := (vs ! i)\<lparr>votedPlayerId := voted\<rparr>])
          \<subseteq> insert ((vs ! i)\<lparr>votedPlayerId := voted\<rparr>) (set vs)"
    by (rule set_update_subset_insert)
  with assms i show ?thesis
    by (auto simp: upsert_vote_def Some)
qed

lemma no_self_vote_reachable:
  assumes "reachable st"
  shows "all_rooms no_self_vote st"
proof (rule reachable_all_rooms[OF _ _ _ _ _ _ _ _ assms])
  show "no_self_vote (new_room sock rid n)" for sock rid n
    by (simp add: no_self_vote_def new_room_def)
  show "no_self_vote r'" if "no_self_vote r" "rebind sock r = Some r'" for sock r r'
    using that rebind_fields[OF that(2)] by (auto simp: no_self_vote_def)
  show "no_self_vote (r\<lparr>players := players r @
      [\<lparr> p_id = s_id sock, p_sessionId = s_sessionId sock, name = n, points = 0 \<rparr>]\<rparr>)"
    if "no_self_vote r" "status r = Lobby" for sock :: socket and n r
    using that by (simp add: no_self_vote_def)
  show "no_self_vote (fst (start_game sock r))" if "no_self_vote r" for sock r
    using that by (simp add: no_self_vote_def start_game_def Let_def)
  show "no_self_vote (fst (submit_topic sock t r))" if "no_self_vote r" for sock t r
    using that by (simp add: no_self_vote_def submit_topic_def Let_def)
  show "no_self_vote (fst (submit_gif sock g r))" if "no_self_vote r" for sock g r
    using that by (simp add: no_self_vote_def submit_gif_def Let_def)
  show "no_self_vote (fst (submit_vote sock v r))" if "no_self_vote r" for sock v r
  proof (cases "status r = Voting \<and> v \<noteq> s_id sock")
    case True
    with that have "\<forall>x\<in>set (upsert_vote (s_id sock) v (votes r)). voterId x \<noteq> votedPlayerId x"
      by (intro upsert_vote_no_self) (simp_all add: no_self_vote_def)
    with True show ?thesis
      by (simp add: no_self_vote_def submit_vote_def Let_def fst_tally)
  next
    case False
    with that show ?thesis by (auto simp: submit_vote_def)
  qed
  show "no_self_vote (fst (next_round sock r))" if "no_self_vote r" for sock r
    using that by (simp add: no_self_vote_def next_round_def Let_def)
qed

lemma with_room_rooms:
  "rooms (fst (with_room rid0 body st)) rid = Some r' \<Longrightarrow>
     rooms st rid = Some r' \<or> (\<exists>r. rooms st rid = Some r \<and> r' = fst (body r))"
  by (cases "rooms st rid0") (auto simp: with_room_Some with_room_None split: if_splits)

lemma step_room:
  assumes "rooms (fst (step st a)) rid = Some r'"
  shows "(\<exists>sock n. r' = new_room sock rid n) \<or>
     (\<exists>r. rooms st rid = Some r \<and>
        (r' = r \<or> (\<exists>sock. rebind sock r = Some r') \<or>
         (\<exists>(sock::socket) n. status r = Lobby \<and>
            r' = r\<lparr>players := players r @
                   [\<lparr> p_id = s_id sock, p_sessionId = s_sessionId sock,
                      name = n, points = 0 \<rparr>]\<rparr>) \<or>
         (\<exists>sock. r' = fst (start_game sock r)) \<or>
         (\<exists>sock t. r' = fst (submit_topic sock t r)) \<or>
         (\<exists>sock g. r' = fst (submit_gif sock g r)) \<or>
         (\<exists>sock v. r' = fst (submit_vote sock v r)) \<or>
         (\<exists>sock. r' = fst (next_round sock r))))"
proof (cases a)
  case (Connection sockId auth now fresh)
  with assms have "rooms (fst (on_connection sockId auth now fresh st)) rid = Some r'" by simp
  from on_connection_rooms[OF this] show ?thesis by blast
next
  case (CreateRoom sock rid0 n now)
  with assms show ?thesis
    by (auto simp: on_create_room_def Let_def split: if_splits)
next
  case (JoinRoom sock rid0 n now)
  with assms have "rooms (fst (on_join_room sock rid0 n now st)) rid = Some r'" by simp
  from on_join_room_rooms[OF this] show ?thesis by blast
next
  case (StartGame sock rid0)
  with assms have "rooms (fst (with_room rid0 (start_game sock) st)) rid = Some r'"
    by (simp add: on_start_game_def)
  from with_room_rooms[OF this] show ?thesis by blast
next
  case (SubmitTopic sock rid0 t)
  with assms have "rooms (fst (with_room rid0 (submit_topic sock t) st)) rid = Some r'"
    by (simp add: on_submit_topic_def)
  from with_room_rooms[OF this] show ?thesis by blast
next
  case (SubmitGif sock rid0 g)
  with assms have "rooms (fst (with_room rid0 (submit_gif sock g) st)) rid = Some r'"
    by (simp add: on_submit_gif_def)
  from with_room_rooms[OF this] show ?thesis by blast
next
  case (SubmitVote sock rid0 v)
  with assms have "rooms (fst (with_room rid0 (submit_vote sock v) st)) rid = Some r'"
    by (simp add: on_submit_vote_def)
  from with_room_rooms[OF this] show ?thesis by blast
next
  case (NextRound sock rid0)
  with assms have "rooms (fst (with_room rid0 (next_round sock) st)) rid = Some r'"
    by (simp add: on_next_round_def)
  from with_room_rooms[OF this] show ?thesis by blast
next
  case (Sweep now)
  with assms show ?thesis by (simp add: sweep_def)
qed

lemma voting_only_at_quorum:
  assumes step: "rooms (fst (step st a)) rid = Some r'"
    and room: "rooms st rid = Some r"
    and inv: "seats_inv r"
  shows "(status r = GifSelection \<longrightarrow>
            (status r' = Voting \<longleftrightarrow> length (submissions r') = length (players r'))) \<and>
         (status r' = Voting \<and> status r \<noteq> Voting \<longrightarrow>
            status r = GifSelection \<and> length (submissions r') = length (players r'))"
proof -
  from step_room[OF step] room
  consider (new) sock n where "r' = new_room sock rid n"
    | (same) "r' = r"
    | (rebind) sock where "rebind sock r = Some r'"
    | (join) sock :: socket and n where "status r = Lobby"
        "r' = r\<lparr>players := players r @
                   [\<lparr> p_id = s_id sock, p_sessionId = s_sessionId sock,
                      name = n, points = 0 \<rparr>]\<rparr>"
    | (start) sock where "r' = fst (start_game sock r)"
    | (topic) sock t where "r' = fst (submit_topic sock t r)"
    | (gif) sock g where "r' = fst (submit_gif sock g r)"
    | (vote) sock v where "r' = fst (submit_vote sock v r)"
    | (nxt) sock where "r' = fst (next_round sock r)"
    by auto
  then show ?thesis
  proof cases
    case new
    then show ?thesis by (simp add: new_room_def)
  next
    case same
    with inv show ?thesis by (auto simp: seats_inv_def)
  next
    case rebind
    from rebind_fields[OF rebind] inv show ?thesis by (auto simp: seats_inv_def)
  next
    case join
    then show ?thesis by simp
  next
    case start
    with inv show ?thesis by (auto simp: seats_inv_def start_game_def Let_def)
  next
    case topic
    with inv show ?thesis by (auto simp: seats_inv_def submit_topic_def Let_def)
  next
    case gif
    then show ?thesis by (auto simp: submit_gif_def Let_def)
  next
    case vote
    with inv show ?thesis
      by (auto simp: seats_inv_def submit_vote_def Let_def fst_tally length_award_points)
  next
    case nxt
    with inv show ?thesis by (auto simp: seats_inv_def next_round_def Let_def)
  qed
qed

lemma with_room_unchanged:
  "(\<And>r. rooms st rid = Some r \<Longrightarrow> body r = (r, [])) \<Longrightarrow> with_room rid body st = (st, [])"
proof (cases "rooms st rid")
  case None
  then show ?thesis by (simp add: with_room_None)
next
  case (Some r)
  assume "\<And>r. rooms st rid = Some r \<Longrightarrow> body r = (r, [])"
  with Some have b: "body r = (r, [])" by simp
  have "(rooms st)(rid \<mapsto> r) = rooms st" using Some by (rule map_upd_triv)
  with b show ?thesis by (simp add: with_room_Some[OF Some])
qed

lemma findIndex_update_same:
  "(\<And>x. P (f x) = P x) \<Longrightarrow> findIndex P (xs[i := f (xs ! i)]) = findIndex P xs"
proof (induction xs arbitrary: i)
  case Nil
  then show ?case by simp
next
  case (Cons x xs)
  then show ?case by (cases i) simp_all
qed

lemma findIndex_rebound:
  "findIndex (\<lambda>p. p_sessionId p = sess) (ps[i := (ps ! i)\<lparr>p_id := h\<rparr>]) =
     findIndex (\<lambda>p. p_sessionId p = sess) ps"
  by (rule findIndex_update_same[where f = "\<lambda>p. p\<lparr>p_id := h\<rparr>"]) simp

lemma on_join_room_rebind:
  assumes "rooms st rid = Some r"
    and "findIndex (\<lambda>p. p_sessionId p = s_sessionId sock) (players r) = Some i"
  shows "on_join_room sock rid n t st =
     (st\<lparr>rooms := (rooms st)(rid \<mapsto>
          r\<lparr>players := (players r)[i := (players r ! i)\<lparr>p_id := s_id sock\<rparr>]\<rparr>)\<rparr>,
      [(To_room rid,
        Ev_player_joined (r\<lparr>players := (players r)[i := (players r ! i)\<lparr>p_id := s_id sock\<rparr>]\<rparr>))])"
  using assms by (simp add: on_join_room_def rebind_def)

lemma state_room_same: "rooms st rid = Some r \<Longrightarrow> st\<lparr>rooms := (rooms st)(rid \<mapsto> r)\<rparr> = st"
  by (simp add: map_upd_triv)

lemma rejoin_run:
  assumes "rooms st rid = Some r"
    and "findIndex (\<lambda>p. p_sessionId p = sess) (players r) = Some i"
  shows "run st (map (\<lambda>(h, n, t). JoinRoom \<lparr> s_id = h, s_sessionId = sess \<rparr> rid n t) calls) =
     st\<lparr>rooms := (rooms st)(rid \<mapsto>
          r\<lparr>players := (players r)[i := (players r ! i)
                \<lparr>p_id := last (p_id (players r ! i) # map fst calls)\<rparr>]\<rparr>)\<rparr>"
  using assms
proof (induction calls arbitrary: st r)
  case Nil
  have same: "r\<lparr>players := (players r)[i := (players r ! i)
                \<lparr>p_id := last [p_id (players r ! i)]\<rparr>]\<rparr> = r"
    by simp
  show ?case
    unfolding run_def by (simp only: list.map foldl_Nil same state_room_same[OF Nil.prems(1)])
next
  case (Cons c calls)
  obtain h n t where c: "c = (h, n, t)" by (cases c)
  let ?sock = "\<lparr> s_id = h, s_sessionId = sess \<rparr>"
  let ?r1 = "r\<lparr>players := (players r)[i := (players r ! i)\<lparr>p_id := h\<rparr>]\<rparr>"
  let ?st1 = "st\<lparr>rooms := (rooms st)(rid \<mapsto> ?r1)\<rparr>"
  from findIndex_Some_D[OF Cons.prems(2)] have i: "i < length (players r)" by simp
  have s1: "fst (step st (JoinRoom ?sock rid n t)) = ?st1"
    using on_join_room_rebind[of st rid r ?sock i n t] Cons.prems by simp
  have room1: "rooms ?st1 rid = Some ?r1" by simp
  have seat1: "findIndex (\<lambda>p. p_sessionId p = sess) (players ?r1) = Some i"
    using Cons.prems(2) by (simp add: findIndex_rebound)
  have "run st (map (\<lambda>(h, n, t). JoinRoom \<lparr> s_id = h, s_sessionId = sess \<rparr> rid n t) (c # calls)) =
        run ?st1 (map (\<lambda>(h, n, t). JoinRoom \<lparr> s_id = h, s_sessionId = sess \<rparr> rid n t) calls)"
    using s1 by (simp add: run_def c)
  also have "\<dots> = ?st1\<lparr>rooms := (rooms ?st1)(rid \<mapsto>
          ?r1\<lparr>players := (players ?r1)[i := (players ?r1 ! i)
                \<lparr>p_id := last (p_id (players ?r1 ! i) # map fst calls)\<rparr>]\<rparr>)\<rparr>"
    by (rule Cons.IH[OF room1 seat1])
  also have "\<dots> = st\<lparr>rooms := (rooms st)(rid \<mapsto>
          r\<lparr>players := (players r)[i := (players r ! i)
                \<lparr>p_id := last (p_id (players r ! i) # map fst (c # calls))\<rparr>]\<rparr>)\<rparr>"
    using i by (simp add: c)
  finally show ?case .
qed

lemma on_connection_room_cases:
  "rooms st rid = Some r \<Longrightarrow>
     rooms (fst (on_connection sockId auth now fresh st)) rid = Some r \<or>
     (\<exists>sess r'. rebind \<lparr> s_id = sockId, s_sessionId = sess \<rparr> r = Some r' \<and>
        rooms (fst (on_connection sockId auth now fresh st)) rid = Some r')"
  by (auto simp: on_connection_def Let_def split: option.splits if_splits prod.splits)

lemma start_game_ignored:
  "rooms st rid = Some r \<Longrightarrow> hostId r \<noteq> s_id sock \<Longrightarrow> on_start_game sock rid st = (st, [])"
  unfolding on_start_game_def by (rule with_room_unchanged) (simp add: start_game_def)

lemma submit_topic_ignored:
  "rooms st rid = Some r \<Longrightarrow> \<not> is_judge sock r \<Longrightarrow> on_submit_topic sock rid t st = (st, [])"
  unfolding on_submit_topic_def by (rule with_room_unchanged) (simp add: submit_topic_def)

text \<open>
  In every room of every reachable state the submissions never outnumber the players,
  and there are strictly fewer while the room is in \<open>gif-selection\<close>; a \<open>submit-gif\<close> from a
  connection handle that already has a submission overwrites its \<open>gifUrl\<close> in place; and
  whatever action comes next, a room in \<open>gif-selection\<close> is in \<open>voting\<close> afterwards exactly
  when its submissions then equal its players in number, and a room enters \<open>voting\<close> from
  \<open>gif-selection\<close> only, with that equality.
\<close>

lemma submissions_bounded_by_seats:
  assumes reach: "reachable st" and room: "rooms st rid = Some r"
  shows "length (submissions r) \<le> length (players r) \<and>
    (status r = GifSelection \<longrightarrow> length (submissions r) < length (players r)) \<and>
    (\<forall>sock gifUrl' i.
       status r = GifSelection \<and>
       findIndex (\<lambda>s. playerId s = s_id sock) (submissions r) = Some i \<longrightarrow>
       rooms (fst (on_submit_gif sock rid gifUrl' st)) rid =
         Some (r\<lparr>submissions := (submissions r)[i := (submissions r ! i)\<lparr>gifUrl := gifUrl'\<rparr>]\<rparr>)) \<and>
    (\<forall>a r'. status r = GifSelection \<and> rooms (fst (step st a)) rid = Some r' \<longrightarrow>
       (status r' = Voting \<longleftrightarrow> length (submissions r') = length (players r'))) \<and>
    (\<forall>a r'. rooms (fst (step st a)) rid = Some r' \<and> status r' = Voting \<and> status r \<noteq> Voting \<longrightarrow>
       status r = GifSelection \<and> length (submissions r') = length (players r'))"
proof -
  from seats_inv_reachable[OF reach] room have inv: "seats_inv r"
    by (simp add: all_rooms_def)
  then have 1: "length (submissions r) \<le> length (players r)"
    and 2: "status r = GifSelection \<longrightarrow> length (submissions r) < length (players r)"
    by (simp_all add: seats_inv_def)
  have 3: "rooms (fst (on_submit_gif sock rid gifUrl' st)) rid =
         Some (r\<lparr>submissions := (submissions r)[i := (submissions r ! i)\<lparr>gifUrl := gifUrl'\<rparr>]\<rparr>)"
    if "status r = GifSelection"
      and "findIndex (\<lambda>s. playerId s = s_id sock) (submissions r) = Some i"
    for sock gifUrl' i
    using that 2
    by (simp add: on_submit_gif_def with_room_Some[OF room] submit_gif_def
        upsert_submission_def Let_def)
  from voting_only_at_quorum[OF _ room inv] 1 2 3 show ?thesis by blast
qed

section \<open>Facts about the sample runs\<close>

lemma reachable_demo_alone: "reachable demo_alone"
  unfolding demo_alone_def by (rule reachable_run[OF reachable_init])

lemma reachable_demo_gifs: "reachable demo_gifs"
  unfolding demo_gifs_def by (rule reachable_run[OF reachable_demo_alone])

lemma reachable_demo_voting: "reachable demo_voting"
  unfolding demo_voting_def by (rule reachable_run[OF reachable_demo_alone])

lemma reachable_demo_outsider_vote: "reachable demo_outsider_vote"
  unfolding demo_outsider_vote_def by (rule reachable_run[OF reachable_demo_gifs])

lemma reachable_demo_resubmit: "reachable demo_resubmit"
  unfolding demo_resubmit_def by (rule reachable_run[OF reachable_demo_alone])

lemma reachable_demo_reveal: "reachable demo_reveal"
  unfolding demo_reveal_def by (rule reachable_run[OF reachable_demo_voting])

lemma reachable_demo_last_round: "reachable demo_last_round"
  unfolding demo_last_round_def by (rule reachable_run[OF reachable_demo_alone])

lemma demo_alone_room: "rooms demo_alone ''100000'' = Some room_alone"
  by code_simp

lemma demo_gifs_room: "rooms demo_gifs ''100000'' = Some room_gifs"
  by code_simp

lemma demo_voting_room: "rooms demo_voting ''100000'' = Some room_voting"
  by code_simp

lemma demo_last_round_room: "rooms demo_last_round ''100000'' = Some room_last_round"
  by code_simp

text \<open>The tally on names that \<open>Object.prototype\<close> defines: two votes for \<open>constructor\<close>
  and one for \<open>a1\<close> leave a string under \<open>constructor\<close>, and \<open>a1\<close> is the winner; a vote
  for \<open>__proto__\<close> stores nothing.\<close>

lemma tally_of_inherited_names:
  "count_votes [\<lparr>voterId = ''a1'', votedPlayerId = ''constructor''\<rparr>,
                \<lparr>voterId = ''b1'', votedPlayerId = ''constructor''\<rparr>,
                \<lparr>voterId = ''c1'', votedPlayerId = ''a1''\<rparr>] =
     [(''constructor'', Str ''function Object() { [native code] }11''), (''a1'', Num 1)] \<and>
   pick_winners (count_votes [\<lparr>voterId = ''a1'', votedPlayerId = ''constructor''\<rparr>,
                \<lparr>voterId = ''b1'', votedPlayerId = ''constructor''\<rparr>,
                \<lparr>voterId = ''c1'', votedPlayerId = ''a1''\<rparr>]) = [''a1''] \<and>
   count_votes [\<lparr>voterId = ''a1'', votedPlayerId = ''__proto__''\<rparr>,
                \<lparr>voterId = ''b1'', votedPlayerId = ''toString''\<rparr>] =
     [(''toString'', Str ''function toString() { [native code] }1'')]"
  by code_simp

section \<open>The claims\<close>

subsection \<open>C1: the tally and the points it awards\<close>

text \<open>
  Claim C1, as amended. When a \<open>submit-vote\<close> in the voting phase makes \<open>votes.length\<close>
  equal \<open>players.length\<close> and no stored \<open>votedPlayerId\<close> is a name that \<open>Object.prototype\<close>
  defines, the tally counts the occurrences of each \<open>votedPlayerId\<close> among the stored
  votes, and the winner set is exactly the set of candidates whose count equals the
  maximum. The server does not check \<open>votedPlayerId\<close> against the players, so a candidate
  that is no player can win. When every winner is the connection handle of a player,
  each winner's points increase by exactly 1, no other player's points change, and the
  points awarded in the round sum to the size of the winner set. (Connection handles are
  unique per connection: that is the hypothesis that the players' handles are distinct.)
\<close>

theorem C1_tally_awards_seated_winners:
  assumes room: "rooms st rid = Some r"
    and voting: "status r = Voting"
    and other: "voted \<noteq> s_id sock"
    and quorum: "length (upsert_vote (s_id sock) voted (votes r)) = length (players r)"
    and plain: "\<forall>v\<in>set (upsert_vote (s_id sock) voted (votes r)).
                  votedPlayerId v \<notin> set prototype_names"
  shows "\<exists>r' vs voteCounts winners.
      rooms (fst (on_submit_vote sock rid voted st)) rid = Some r' \<and>
      snd (on_submit_vote sock rid voted st) = [(To_room rid, Ev_round_ended r' winners voteCounts)] \<and>
      vs = upsert_vote (s_id sock) voted (votes r) \<and> votes r' = vs \<and>
      voteCounts = count_votes vs \<and> winners = pick_winners voteCounts \<and>
      distinct (map fst voteCounts) \<and>
      (\<forall>k. map_of voteCounts k =
            (if occurrences vs k = 0 then None else Some (Num (occurrences vs k)))) \<and>
      distinct winners \<and>
      set winners = {k \<in> votedPlayerId ` set vs.
                       occurrences vs k = Max (occurrences vs ` votedPlayerId ` set vs)} \<and>
      map p_id (players r') = map p_id (players r) \<and>
      (set winners \<subseteq> p_id ` set (players r) \<and> distinct (map p_id (players r)) \<longrightarrow>
         players r' = map (\<lambda>p. p\<lparr>points := points p + (if p_id p \<in> set winners then 1 else 0)\<rparr>)
                          (players r)) \<and>
      (set winners \<subseteq> p_id ` set (players r) \<longrightarrow>
         sum_list (map points (players r')) = sum_list (map points (players r)) + card (set winners))"
proof -
  let ?vs = "upsert_vote (s_id sock) voted (votes r)"
  let ?r1 = "r\<lparr>votes := ?vs\<rparr>"
  let ?vc = "count_votes ?vs"
  let ?ws = "pick_winners ?vc"
  let ?r' = "fst (tally ?r1)"
  have sv: "submit_vote sock voted r = tally ?r1"
    by (rule submit_vote_tally[OF voting other quorum])
  have 1: "rooms (fst (on_submit_vote sock rid voted st)) rid = Some ?r'"
    by (simp add: on_submit_vote_def with_room_Some[OF room] sv)
  have 2: "snd (on_submit_vote sock rid voted st) = [(To_room rid, Ev_round_ended ?r' ?ws ?vc)]"
    by (simp add: on_submit_vote_def with_room_Some[OF room] sv snd_tally)
  have 3: "votes ?r' = ?vs" by (simp add: fst_tally)
  have dws: "distinct ?ws" by (rule pick_winners_distinct[OF distinct_count_votes])
  have pl: "players ?r' = award_points (players r) ?ws" by (simp add: fst_tally)
  have 4: "set ?ws \<subseteq> p_id ` set (players r) \<and> distinct (map p_id (players r)) \<longrightarrow>
      players ?r' = map (\<lambda>p. p\<lparr>points := points p + (if p_id p \<in> set ?ws then 1 else 0)\<rparr>)
                       (players r)"
    unfolding pl using award_points_distinct[OF _ dws] by blast
  have 5: "sum_list (map points (players ?r')) =
        sum_list (map points (players r)) + card (set ?ws \<inter> p_id ` set (players r))"
    unfolding pl by (simp add: sum_award_points count_present_winners[OF dws])
  have 6: "set ?ws \<subseteq> p_id ` set (players r) \<longrightarrow>
         sum_list (map points (players ?r')) = sum_list (map points (players r)) + card (set ?ws)"
    using 5 by (simp add: Int_absorb2)
  have 7: "map p_id (players ?r') = map p_id (players r)"
    unfolding pl by (rule ids_award_points)
  from 1 2 3 4 6 7 dws distinct_count_votes[of ?vs] map_of_count_votes[OF plain]
    winners_of_votes[OF plain]
  show ?thesis by blast
qed

text \<open>The theorem at the sample room of three: Bob's vote for Ann closes the round,
  Bob is the one winner with two votes and gains the one point.\<close>

theorem C1_tally_awards_seated_winners_witness:
  "rooms demo_voting ''100000'' = Some room_voting \<and>
   status room_voting = Voting \<and> ''a1'' \<noteq> s_id bob \<and>
   length (upsert_vote (s_id bob) ''a1'' (votes room_voting)) = length (players room_voting) \<and>
   list_all (\<lambda>v. votedPlayerId v \<notin> set prototype_names)
     (upsert_vote (s_id bob) ''a1'' (votes room_voting)) \<and>
   distinct (map p_id (players room_voting)) \<and>
   count_votes (upsert_vote (s_id bob) ''a1'' (votes room_voting)) =
     [(''b1'', Num 2), (''a1'', Num 1)] \<and>
   pick_winners (count_votes (upsert_vote (s_id bob) ''a1'' (votes room_voting))) = [''b1''] \<and>
   set [''b1''] \<subseteq> p_id ` set (players room_voting) \<and>
   map points (players room_voting) = [0, 0, 0] \<and>
   map points (players (the (rooms (fst (on_submit_vote bob ''100000'' ''a1'' demo_voting))
       ''100000''))) = [0, 1, 0]"
proof -
  have voting: "status room_voting = Voting" by (simp add: room_voting_def)
  have other: "''a1'' \<noteq> s_id bob" by (simp add: bob_def)
  have quorum: "length (upsert_vote (s_id bob) ''a1'' (votes room_voting)) =
      length (players room_voting)"
    by code_simp
  have plain: "list_all (\<lambda>v. votedPlayerId v \<notin> set prototype_names)
     (upsert_vote (s_id bob) ''a1'' (votes room_voting))"
    by code_simp
  then have plain': "\<forall>v\<in>set (upsert_vote (s_id bob) ''a1'' (votes room_voting)).
      votedPlayerId v \<notin> set prototype_names"
    by (simp add: list_all_iff)
  have ids: "distinct (map p_id (players room_voting))" by (simp add: room_voting_def)
  have vc: "count_votes (upsert_vote (s_id bob) ''a1'' (votes room_voting)) =
      [(''b1'', Num 2), (''a1'', Num 1)]"
    by code_simp
  have ws: "pick_winners (count_votes (upsert_vote (s_id bob) ''a1'' (votes room_voting))) = [''b1'']"
    by code_simp
  have seated: "set [''b1''] \<subseteq> p_id ` set (players room_voting)"
    by (simp add: room_voting_def)
  have before: "map points (players room_voting) = [0, 0, 0]" by (simp add: room_voting_def)
  from C1_tally_awards_seated_winners[OF demo_voting_room voting other quorum plain']
  obtain r' winners
    where r': "rooms (fst (on_submit_vote bob ''100000'' ''a1'' demo_voting)) ''100000'' = Some r'"
      and w: "winners = pick_winners (count_votes (upsert_vote (s_id bob) ''a1'' (votes room_voting)))"
      and imp: "set winners \<subseteq> p_id ` set (players room_voting) \<and>
          distinct (map p_id (players room_voting)) \<longrightarrow>
          players r' = map (\<lambda>p. p\<lparr>points := points p + (if p_id p \<in> set winners then 1 else 0)\<rparr>)
                          (players room_voting)"
    by blast
  from w ws have w': "winners = [''b1'']" by simp
  from imp seated ids
  have pl: "players r' = map (\<lambda>p. p\<lparr>points := points p + (if p_id p \<in> set [''b1''] then 1 else 0)\<rparr>)
                          (players room_voting)"
    unfolding w' by blast
  have "map points (players r') = [0, 1, 0]"
    unfolding pl by (simp add: room_voting_def)
  with r' demo_voting_room voting other quorum plain ids vc ws seated before
  show ?thesis by simp
qed

text \<open>
  The claim as stated fails when a winner is not a player. In the sample room of two,
  Ann has voted for \<open>e1\<close>, the handle of Eve's connection, which has no seat, and Bob's
  vote for \<open>e1\<close> closes the round. The winner set is \<open>{e1}\<close>, of size 1; the award loop
  finds no player with that handle and its guard \<open>if (p)\<close> passes on: no point is
  awarded.
\<close>

theorem C1_unseated_winner_counterexample:
  "reachable demo_outsider_vote \<and>
   rooms demo_outsider_vote ''100000'' = Some room_outsider_vote \<and>
   status room_outsider_vote = Voting \<and>
   map p_id (players room_outsider_vote) = [''a1'', ''b1''] \<and>
   map points (players room_outsider_vote) = [0, 0] \<and>
   length (upsert_vote (s_id bob) ''e1'' (votes room_outsider_vote)) =
     length (players room_outsider_vote) \<and>
   snd (on_submit_vote bob ''100000'' ''e1'' demo_outsider_vote) =
     [(To_room ''100000'',
       Ev_round_ended (the (rooms (fst (on_submit_vote bob ''100000'' ''e1'' demo_outsider_vote))
           ''100000''))
         [''e1''] [(''e1'', Num 2)])] \<and>
   status (the (rooms (fst (on_submit_vote bob ''100000'' ''e1'' demo_outsider_vote)) ''100000''))
     = Reveal \<and>
   map points (players (the (rooms (fst (on_submit_vote bob ''100000'' ''e1'' demo_outsider_vote))
       ''100000''))) = [0, 0] \<and>
   sum_list (map points (players (the (rooms (fst (on_submit_vote bob ''100000'' ''e1''
       demo_outsider_vote)) ''100000'')))) - sum_list (map points (players room_outsider_vote))
     \<noteq> card (set [''e1''])"
proof -
  have "rooms demo_outsider_vote ''100000'' = Some room_outsider_vote \<and>
   status room_outsider_vote = Voting \<and>
   map p_id (players room_outsider_vote) = [''a1'', ''b1''] \<and>
   map points (players room_outsider_vote) = [0, 0] \<and>
   length (upsert_vote (s_id bob) ''e1'' (votes room_outsider_vote)) =
     length (players room_outsider_vote) \<and>
   snd (on_submit_vote bob ''100000'' ''e1'' demo_outsider_vote) =
     [(To_room ''100000'',
       Ev_round_ended (the (rooms (fst (on_submit_vote bob ''100000'' ''e1'' demo_outsider_vote))
           ''100000''))
         [''e1''] [(''e1'', Num 2)])] \<and>
   status (the (rooms (fst (on_submit_vote bob ''100000'' ''e1'' demo_outsider_vote)) ''100000''))
     = Reveal \<and>
   map points (players (the (rooms (fst (on_submit_vote bob ''100000'' ''e1'' demo_outsider_vote))
       ''100000''))) = [0, 0] \<and>
   sum_list (map points (players (the (rooms (fst (on_submit_vote bob ''100000'' ''e1''
       demo_outsider_vote)) ''100000'')))) - sum_list (map points (players room_outsider_vote))
     \<noteq> card (set [''e1''])"
    by code_simp
  with reachable_demo_outsider_vote show ?thesis by (rule conjI)
qed

subsection \<open>C2: a second submission after a reconnection\<close>

text \<open>
  Claim C2 says that a repeated \<open>submit-gif\<close> by the same caller overwrites that caller's
  submission and appends none. The caller is a player, whom the session identifies; the
  handler looks for the caller's submission by connection handle (under its comment
  \<open>Update submission if player already submitted\<close>), and a reconnection gives the seat a
  new handle and leaves the stored submissions under the old one. In the sample room of
  three Bob has submitted as \<open>b1\<close> and is back as \<open>b2\<close>: his second \<open>submit-gif\<close> is appended
  beside his first, and Ann's submission then brings the submissions to three and the
  room to \<open>voting\<close> while Cy has not submitted.
\<close>

theorem C2_resubmission_after_reconnect_appends:
  "reachable demo_resubmit \<and>
   rooms demo_resubmit ''100000'' = Some room_resubmit \<and>
   status room_resubmit = GifSelection \<and>
   map p_sessionId (players room_resubmit) = [''sa'', ''sb'', ''sc''] \<and>
   map p_id (players room_resubmit) = [''a1'', ''b2'', ''c1''] \<and>
   s_sessionId bob = ''sb'' \<and> s_sessionId bob2 = ''sb'' \<and>
   submissions room_resubmit = [\<lparr>playerId = ''b1'', gifUrl = ''g2''\<rparr>] \<and>
   rooms (fst (on_submit_gif bob2 ''100000'' ''g9'' demo_resubmit)) ''100000'' =
     Some (room_resubmit\<lparr>submissions :=
       [\<lparr>playerId = ''b1'', gifUrl = ''g2''\<rparr>, \<lparr>playerId = ''b2'', gifUrl = ''g9''\<rparr>]\<rparr>) \<and>
   rooms (run demo_resubmit [SubmitGif bob2 ''100000'' ''g9'', SubmitGif ann ''100000'' ''g1''])
       ''100000'' =
     Some (room_resubmit\<lparr>submissions :=
       [\<lparr>playerId = ''b1'', gifUrl = ''g2''\<rparr>, \<lparr>playerId = ''b2'', gifUrl = ''g9''\<rparr>,
        \<lparr>playerId = ''a1'', gifUrl = ''g1''\<rparr>], status := Voting\<rparr>)"
proof -
  have "rooms demo_resubmit ''100000'' = Some room_resubmit \<and>
   status room_resubmit = GifSelection \<and>
   map p_sessionId (players room_resubmit) = [''sa'', ''sb'', ''sc''] \<and>
   map p_id (players room_resubmit) = [''a1'', ''b2'', ''c1''] \<and>
   s_sessionId bob = ''sb'' \<and> s_sessionId bob2 = ''sb'' \<and>
   submissions room_resubmit = [\<lparr>playerId = ''b1'', gifUrl = ''g2''\<rparr>] \<and>
   rooms (fst (on_submit_gif bob2 ''100000'' ''g9'' demo_resubmit)) ''100000'' =
     Some (room_resubmit\<lparr>submissions :=
       [\<lparr>playerId = ''b1'', gifUrl = ''g2''\<rparr>, \<lparr>playerId = ''b2'', gifUrl = ''g9''\<rparr>]\<rparr>) \<and>
   rooms (run demo_resubmit [SubmitGif bob2 ''100000'' ''g9'', SubmitGif ann ''100000'' ''g1''])
       ''100000'' =
     Some (room_resubmit\<lparr>submissions :=
       [\<lparr>playerId = ''b1'', gifUrl = ''g2''\<rparr>, \<lparr>playerId = ''b2'', gifUrl = ''g9''\<rparr>,
        \<lparr>playerId = ''a1'', gifUrl = ''g1''\<rparr>], status := Voting\<rparr>)"
    by code_simp
  with reachable_demo_resubmit show ?thesis by (rule conjI)
qed

subsection \<open>C3: rejoining with a known session only rebinds the handle\<close>

text \<open>
  Claim C3. In a room in any phase, a \<open>join-room\<close> call whose session already has a seat in
  the room is answered by the reconnection branch: it writes the caller's handle into that
  seat's \<open>id\<close>, broadcasts the roster, and changes nothing else. Repeated any number of
  times, from any handles, the calls leave every player's points, session and name, every
  other seat, and the room's status, round, topic, submissions and votes as they were;
  only the seat's handle changes, to the handle of the last call.
\<close>

theorem C3_rejoin_only_rebinds_handle:
  assumes room: "rooms st rid = Some r"
    and seat: "sess \<in> p_sessionId ` set (players r)"
  shows "\<exists>i r'. findIndex (\<lambda>p. p_sessionId p = sess) (players r) = Some i \<and> i < length (players r) \<and>
      (\<forall>h n t. on_join_room \<lparr> s_id = h, s_sessionId = sess \<rparr> rid n t st =
         (st\<lparr>rooms := (rooms st)(rid \<mapsto>
             r\<lparr>players := (players r)[i := (players r ! i)\<lparr>p_id := h\<rparr>]\<rparr>)\<rparr>,
          [(To_room rid,
            Ev_player_joined (r\<lparr>players := (players r)[i := (players r ! i)\<lparr>p_id := h\<rparr>]\<rparr>))])) \<and>
      r' = r\<lparr>players := (players r)[i := (players r ! i)
                \<lparr>p_id := last (p_id (players r ! i) # map fst calls)\<rparr>]\<rparr> \<and>
      run st (map (\<lambda>(h, n, t). JoinRoom \<lparr> s_id = h, s_sessionId = sess \<rparr> rid n t) calls) =
        st\<lparr>rooms := (rooms st)(rid \<mapsto> r')\<rparr> \<and>
      map points (players r') = map points (players r) \<and>
      map p_sessionId (players r') = map p_sessionId (players r) \<and>
      map name (players r') = map name (players r) \<and>
      (\<forall>j. j \<noteq> i \<longrightarrow> players r' ! j = players r ! j) \<and>
      status r' = status r \<and> currentRound r' = currentRound r \<and> topic r' = topic r \<and>
      submissions r' = submissions r \<and> votes r' = votes r"
proof -
  from seat findIndex_Some_iff[of "\<lambda>p. p_sessionId p = sess" "players r"]
  obtain i where i: "findIndex (\<lambda>p. p_sessionId p = sess) (players r) = Some i" by auto
  from findIndex_Some_D[OF i] have len: "i < length (players r)" by simp
  let ?r' = "r\<lparr>players := (players r)[i := (players r ! i)
                \<lparr>p_id := last (p_id (players r ! i) # map fst calls)\<rparr>]\<rparr>"
  have single: "on_join_room \<lparr> s_id = h, s_sessionId = sess \<rparr> rid n t st =
         (st\<lparr>rooms := (rooms st)(rid \<mapsto>
             r\<lparr>players := (players r)[i := (players r ! i)\<lparr>p_id := h\<rparr>]\<rparr>)\<rparr>,
          [(To_room rid,
            Ev_player_joined (r\<lparr>players := (players r)[i := (players r ! i)\<lparr>p_id := h\<rparr>]\<rparr>))])"
    for h n t
    using on_join_room_rebind[of st rid r "\<lparr> s_id = h, s_sessionId = sess \<rparr>" i n t] room i by simp
  have many: "run st (map (\<lambda>(h, n, t). JoinRoom \<lparr> s_id = h, s_sessionId = sess \<rparr> rid n t) calls) =
        st\<lparr>rooms := (rooms st)(rid \<mapsto> ?r')\<rparr>"
    by (rule rejoin_run[OF room i])
  have pts: "map points (players ?r') = map points (players r)"
    and ses: "map p_sessionId (players ?r') = map p_sessionId (players r)"
    and nms: "map name (players ?r') = map name (players r)"
    using len by (simp_all add: map_update list_update_same_conv)
  have others: "\<forall>j. j \<noteq> i \<longrightarrow> players ?r' ! j = players r ! j" by simp
  from i len single many pts ses nms others show ?thesis
    by (intro exI[of _ i] exI[of _ ?r']) simp
qed

text \<open>The theorem at the sample room of three in its voting phase: Bob rejoins twice
  with his session, from the handles \<open>b2\<close> and \<open>b3\<close>.\<close>

theorem C3_rejoin_only_rebinds_handle_witness:
  "rooms demo_voting ''100000'' = Some room_voting \<and>
   ''sb'' \<in> p_sessionId ` set (players room_voting) \<and>
   status room_voting = Voting \<and>
   run demo_voting [JoinRoom bob2 ''100000'' ''Bob'' 6, JoinRoom bob3 ''100000'' ''Bob'' 7] =
     demo_voting\<lparr>rooms := (rooms demo_voting)(''100000'' \<mapsto> room_voting\<lparr>players :=
       [\<lparr>p_id = ''a1'', p_sessionId = ''sa'', name = ''Ann'', points = 0\<rparr>,
        \<lparr>p_id = ''b3'', p_sessionId = ''sb'', name = ''Bob'', points = 0\<rparr>,
        \<lparr>p_id = ''c1'', p_sessionId = ''sc'', name = ''Cy'', points = 0\<rparr>]\<rparr>)\<rparr>"
proof -
  have seat: "''sb'' \<in> p_sessionId ` set (players room_voting)"
    by (simp add: room_voting_def)
  have idx: "findIndex (\<lambda>p. p_sessionId p = ''sb'') (players room_voting) = Some 1"
    by (simp add: room_voting_def)
  have calls: "map (\<lambda>(h, n, t). JoinRoom \<lparr> s_id = h, s_sessionId = ''sb'' \<rparr> ''100000'' n t)
      [(''b2'', ''Bob'', 6), (''b3'', ''Bob'', 7)] =
      [JoinRoom bob2 ''100000'' ''Bob'' 6, JoinRoom bob3 ''100000'' ''Bob'' 7]"
    by (simp add: bob2_def bob3_def)
  have voting: "status room_voting = Voting" by (simp add: room_voting_def)
  have shape: "room_voting\<lparr>players := (players room_voting)[1 := (players room_voting ! 1)
          \<lparr>p_id := last (p_id (players room_voting ! 1) #
              map fst [(''b2'', ''Bob'', 6::int), (''b3'', ''Bob'', 7)])\<rparr>]\<rparr> =
      room_voting\<lparr>players :=
       [\<lparr>p_id = ''a1'', p_sessionId = ''sa'', name = ''Ann'', points = 0\<rparr>,
        \<lparr>p_id = ''b3'', p_sessionId = ''sb'', name = ''Bob'', points = 0\<rparr>,
        \<lparr>p_id = ''c1'', p_sessionId = ''sc'', name = ''Cy'', points = 0\<rparr>]\<rparr>"
    by (simp add: room_voting_def)
  from C3_rejoin_only_rebinds_handle[OF demo_voting_room seat,
      of "[(''b2'', ''Bob'', 6), (''b3'', ''Bob'', 7)]"] idx
  have "run demo_voting (map (\<lambda>(h, n, t). JoinRoom \<lparr> s_id = h, s_sessionId = ''sb'' \<rparr> ''100000'' n t)
      [(''b2'', ''Bob'', 6), (''b3'', ''Bob'', 7)]) =
     demo_voting\<lparr>rooms := (rooms demo_voting)(''100000'' \<mapsto>
       room_voting\<lparr>players := (players room_voting)[1 := (players room_voting ! 1)
          \<lparr>p_id := last (p_id (players room_voting ! 1) #
              map fst [(''b2'', ''Bob'', 6::int), (''b3'', ''Bob'', 7)])\<rparr>]\<rparr>)\<rparr>"
    by auto
  then have "run demo_voting [JoinRoom bob2 ''100000'' ''Bob'' 6, JoinRoom bob3 ''100000'' ''Bob'' 7] =
     demo_voting\<lparr>rooms := (rooms demo_voting)(''100000'' \<mapsto> room_voting\<lparr>players :=
       [\<lparr>p_id = ''a1'', p_sessionId = ''sa'', name = ''Ann'', points = 0\<rparr>,
        \<lparr>p_id = ''b3'', p_sessionId = ''sb'', name = ''Bob'', points = 0\<rparr>,
        \<lparr>p_id = ''c1'', p_sessionId = ''sc'', name = ''Cy'', points = 0\<rparr>]\<rparr>)\<rparr>"
    by (simp only: calls shape)
  with demo_voting_room seat voting show ?thesis by blast
qed

subsection \<open>C4: no stored vote is a vote for its own voter\<close>

text \<open>
  Claim C4. In every room of every reachable state, every stored vote has
  \<open>voterId \<noteq> votedPlayerId\<close>; and a \<open>submit-vote\<close> whose \<open>votedPlayerId\<close> is the caller's
  own connection handle leaves the whole state unchanged and emits nothing, so no error
  either.
\<close>

theorem C4_no_self_vote_is_stored:
  assumes reach: "reachable st"
  shows "(\<forall>rid r v. rooms st rid = Some r \<and> v \<in> set (votes r) \<longrightarrow> voterId v \<noteq> votedPlayerId v) \<and>
    (\<forall>sock rid. on_submit_vote sock rid (s_id sock) st = (st, []))"
proof -
  from no_self_vote_reachable[OF reach]
  have 1: "\<forall>rid r v. rooms st rid = Some r \<and> v \<in> set (votes r) \<longrightarrow> voterId v \<noteq> votedPlayerId v"
    by (auto simp: all_rooms_def no_self_vote_def)
  have 2: "on_submit_vote sock rid (s_id sock) st = (st, [])" for sock rid
    unfolding on_submit_vote_def
    by (rule with_room_unchanged) (simp add: submit_vote_def)
  from 1 2 show ?thesis by blast
qed

text \<open>The theorem at the sample room of three in its voting phase.\<close>

theorem C4_no_self_vote_is_stored_witness:
  "reachable demo_voting \<and> rooms demo_voting ''100000'' = Some room_voting \<and>
   status room_voting = Voting \<and> votes room_voting \<noteq> [] \<and>
   list_all (\<lambda>v. voterId v \<noteq> votedPlayerId v) (votes room_voting) \<and>
   on_submit_vote bob ''100000'' (s_id bob) demo_voting = (demo_voting, [])"
proof -
  note main = C4_no_self_vote_is_stored[OF reachable_demo_voting]
  from main demo_voting_room
  have "list_all (\<lambda>v. voterId v \<noteq> votedPlayerId v) (votes room_voting)"
    unfolding list_all_iff by blast
  moreover from main
  have "on_submit_vote bob ''100000'' (s_id bob) demo_voting = (demo_voting, [])"
    by blast
  moreover have "status room_voting = Voting" "votes room_voting \<noteq> []"
    by (simp_all add: room_voting_def)
  ultimately show ?thesis using reachable_demo_voting demo_voting_room by simp
qed

subsection \<open>C5: game over exactly after the last round\<close>

text \<open>
  Claim C5. When a vote completes the voting phase and the tally is applied, the room's
  status becomes \<open>game-over\<close> if and only if \<open>currentRound \<ge> maxRounds\<close> at that moment, and
  \<open>reveal\<close> otherwise; the tally changes neither number.
\<close>

theorem C5_game_over_iff_last_round:
  assumes room: "rooms st rid = Some r"
    and voting: "status r = Voting"
    and other: "voted \<noteq> s_id sock"
    and quorum: "length (upsert_vote (s_id sock) voted (votes r)) = length (players r)"
  shows "\<exists>r'. rooms (fst (on_submit_vote sock rid voted st)) rid = Some r' \<and>
      currentRound r' = currentRound r \<and> maxRounds r' = maxRounds r \<and>
      (status r' = GameOver \<longleftrightarrow> currentRound r \<ge> maxRounds r) \<and>
      (status r' = Reveal \<longleftrightarrow> currentRound r < maxRounds r)"
proof -
  let ?r1 = "r\<lparr>votes := upsert_vote (s_id sock) voted (votes r)\<rparr>"
  have "rooms (fst (on_submit_vote sock rid voted st)) rid = Some (fst (tally ?r1))"
    by (simp add: on_submit_vote_def with_room_Some[OF room]
        submit_vote_tally[OF voting other quorum])
  then show ?thesis by (auto simp: fst_tally)
qed

text \<open>The theorem at the room of three in round 1 of 10, which goes to \<open>reveal\<close>, and at
  the room of two in round 10 of 10, which goes to \<open>game-over\<close>.\<close>

theorem C5_game_over_iff_last_round_witness:
  "rooms demo_voting ''100000'' = Some room_voting \<and>
   status room_voting = Voting \<and> ''a1'' \<noteq> s_id bob \<and>
   length (upsert_vote (s_id bob) ''a1'' (votes room_voting)) = length (players room_voting) \<and>
   currentRound room_voting = 1 \<and> maxRounds room_voting = 10 \<and>
   status (the (rooms (fst (on_submit_vote bob ''100000'' ''a1'' demo_voting)) ''100000'')) = Reveal \<and>
   reachable demo_last_round \<and> rooms demo_last_round ''100000'' = Some room_last_round \<and>
   status room_last_round = Voting \<and>
   length (upsert_vote (s_id bob) ''a1'' (votes room_last_round)) = length (players room_last_round) \<and>
   currentRound room_last_round = 10 \<and> maxRounds room_last_round = 10 \<and>
   status (the (rooms (fst (on_submit_vote bob ''100000'' ''a1'' demo_last_round)) ''100000'')) = GameOver"
proof -
  have voting: "status room_voting = Voting" by (simp add: room_voting_def)
  have other: "''a1'' \<noteq> s_id bob" by (simp add: bob_def)
  have quorum: "length (upsert_vote (s_id bob) ''a1'' (votes room_voting)) = length (players room_voting)"
    by code_simp
  have rounds: "currentRound room_voting = 1" "maxRounds room_voting = 10"
    by (simp_all add: room_voting_def)
  have voting': "status room_last_round = Voting" by (simp add: room_last_round_def)
  have quorum': "length (upsert_vote (s_id bob) ''a1'' (votes room_last_round)) =
      length (players room_last_round)"
    by code_simp
  have rounds': "currentRound room_last_round = 10" "maxRounds room_last_round = 10"
    by (simp_all add: room_last_round_def)
  from C5_game_over_iff_last_round[OF demo_voting_room voting other quorum] rounds
  have 1: "status (the (rooms (fst (on_submit_vote bob ''100000'' ''a1'' demo_voting)) ''100000'')) = Reveal"
    by auto
  from C5_game_over_iff_last_round[OF demo_last_round_room voting' other quorum'] rounds'
  have 2: "status (the (rooms (fst (on_submit_vote bob ''100000'' ''a1'' demo_last_round)) ''100000''))
      = GameOver"
    by auto
  from 1 2 demo_voting_room demo_last_round_room reachable_demo_last_round
    voting other quorum rounds voting' quorum' rounds'
  show ?thesis by simp
qed

subsection \<open>C6: who may start the game\<close>

text \<open>
  Claim C6, as amended. \<open>start-game\<close> takes effect exactly when the caller's connection
  handle equals the room's \<open>hostId\<close>, whatever the number of players: the server has no
  test of \<open>players.length\<close> and no \<open>InsufficientPlayers\<close> rejection (the minimum of two
  players is enforced by the client alone, which disables its button). Called by the host
  on a room in the lobby it moves the room to \<open>topic-selection\<close>, sets \<open>currentRound = 1\<close>
  and broadcasts \<open>game-started\<close>; for any other caller it is a silent no-op.
\<close>

theorem C6_start_game_checks_host_only:
  assumes room: "rooms st rid = Some r"
  shows "(hostId r = s_id sock \<and> status r = Lobby \<longrightarrow>
       on_start_game sock rid st =
         (st\<lparr>rooms := (rooms st)(rid \<mapsto> r\<lparr>status := TopicSelection, currentRound := 1\<rparr>)\<rparr>,
          [(To_room rid, Ev_game_started (r\<lparr>status := TopicSelection, currentRound := 1\<rparr>))])) \<and>
     (hostId r \<noteq> s_id sock \<longrightarrow> on_start_game sock rid st = (st, []))"
proof (intro conjI impI)
  assume "hostId r = s_id sock \<and> status r = Lobby"
  then show "on_start_game sock rid st =
         (st\<lparr>rooms := (rooms st)(rid \<mapsto> r\<lparr>status := TopicSelection, currentRound := 1\<rparr>)\<rparr>,
          [(To_room rid, Ev_game_started (r\<lparr>status := TopicSelection, currentRound := 1\<rparr>))])"
    by (simp add: on_start_game_def with_room_Some[OF room] start_game_def Let_def)
next
  assume "hostId r \<noteq> s_id sock"
  with room show "on_start_game sock rid st = (st, [])" by (rule start_game_ignored)
qed

text \<open>The theorem at Ann's lobby: Ann, the host, starts the game; Bob's call is
  ignored.\<close>

theorem C6_start_game_checks_host_only_witness:
  "rooms demo_alone ''100000'' = Some room_alone \<and>
   hostId room_alone = s_id ann \<and> status room_alone = Lobby \<and> length (players room_alone) = 1 \<and>
   on_start_game ann ''100000'' demo_alone =
     (demo_alone\<lparr>rooms := (rooms demo_alone)(''100000'' \<mapsto>
         room_alone\<lparr>status := TopicSelection, currentRound := 1\<rparr>)\<rparr>,
      [(To_room ''100000'', Ev_game_started (room_alone\<lparr>status := TopicSelection, currentRound := 1\<rparr>))]) \<and>
   hostId room_alone \<noteq> s_id bob \<and>
   on_start_game bob ''100000'' demo_alone = (demo_alone, [])"
proof -
  have host: "hostId room_alone = s_id ann" "status room_alone = Lobby"
    "length (players room_alone) = 1" "hostId room_alone \<noteq> s_id bob"
    by (simp_all add: room_alone_def ann_def bob_def)
  from C6_start_game_checks_host_only[OF demo_alone_room, of ann] host
  have 1: "on_start_game ann ''100000'' demo_alone =
     (demo_alone\<lparr>rooms := (rooms demo_alone)(''100000'' \<mapsto>
         room_alone\<lparr>status := TopicSelection, currentRound := 1\<rparr>)\<rparr>,
      [(To_room ''100000'', Ev_game_started (room_alone\<lparr>status := TopicSelection, currentRound := 1\<rparr>))])"
    by blast
  from C6_start_game_checks_host_only[OF demo_alone_room, of bob] host
  have 2: "on_start_game bob ''100000'' demo_alone = (demo_alone, [])" by blast
  from 1 2 host demo_alone_room show ?thesis by blast
qed

text \<open>The claim as stated fails for a host who is alone in the lobby: with one player
  the call is not rejected, the game starts and \<open>game-started\<close> is the only event.\<close>

theorem C6_lone_host_starts_counterexample:
  "reachable demo_alone \<and>
   rooms demo_alone ''100000'' = Some room_alone \<and>
   length (players room_alone) = 1 \<and> status room_alone = Lobby \<and>
   rooms (fst (on_start_game ann ''100000'' demo_alone)) ''100000'' =
     Some (room_alone\<lparr>status := TopicSelection, currentRound := 1\<rparr>) \<and>
   snd (on_start_game ann ''100000'' demo_alone) =
     [(To_room ''100000'', Ev_game_started (room_alone\<lparr>status := TopicSelection, currentRound := 1\<rparr>))]"
proof -
  have "rooms demo_alone ''100000'' = Some room_alone \<and>
     length (players room_alone) = 1 \<and> status room_alone = Lobby \<and>
     rooms (fst (on_start_game ann ''100000'' demo_alone)) ''100000'' =
       Some (room_alone\<lparr>status := TopicSelection, currentRound := 1\<rparr>) \<and>
     snd (on_start_game ann ''100000'' demo_alone) =
       [(To_room ''100000'', Ev_game_started (room_alone\<lparr>status := TopicSelection, currentRound := 1\<rparr>))]"
    by code_simp
  with reachable_demo_alone show ?thesis by (rule conjI)
qed

subsection \<open>C7: a topic submitted outside the topic phase\<close>

text \<open>
  Claim C7 says that \<open>submit-topic\<close> is ignored unless the caller is the judge and the room
  is in \<open>topic-selection\<close>. The handler tests the caller only. In the sample room of three,
  in its voting phase with two votes stored, a second \<open>submit-topic\<close> from the judge is
  accepted: the topic is replaced, the three submissions are discarded and the room is
  back in \<open>gif-selection\<close>.
\<close>

theorem C7_topic_accepted_while_voting:
  "reachable demo_voting \<and>
   rooms demo_voting ''100000'' = Some room_voting \<and>
   status room_voting = Voting \<and> winnerOfLastRound room_voting = Some (s_id ann) \<and>
   rooms (fst (on_submit_topic ann ''100000'' ''Y'' demo_voting)) ''100000'' =
     Some (room_voting\<lparr>topic := ''Y'', status := GifSelection, submissions := []\<rparr>) \<and>
   snd (on_submit_topic ann ''100000'' ''Y'' demo_voting) =
     [(To_room ''100000'',
       Ev_topic_submitted (room_voting\<lparr>topic := ''Y'', status := GifSelection, submissions := []\<rparr>))]"
proof -
  have "rooms demo_voting ''100000'' = Some room_voting \<and>
     status room_voting = Voting \<and> winnerOfLastRound room_voting = Some (s_id ann) \<and>
     rooms (fst (on_submit_topic ann ''100000'' ''Y'' demo_voting)) ''100000'' =
       Some (room_voting\<lparr>topic := ''Y'', status := GifSelection, submissions := []\<rparr>) \<and>
     snd (on_submit_topic ann ''100000'' ''Y'' demo_voting) =
       [(To_room ''100000'',
         Ev_topic_submitted (room_voting\<lparr>topic := ''Y'', status := GifSelection, submissions := []\<rparr>))]"
    by code_simp
  with reachable_demo_voting show ?thesis by (rule conjI)
qed

subsection \<open>C8: the next round asked for by a player who is not the host\<close>

text \<open>
  Claim C8 says that \<open>next-round\<close> takes effect only for the host. The handler tests the
  phase only. In the sample room of three, in its reveal phase, the call of Cy (whose
  handle \<open>c1\<close> is not the \<open>hostId\<close> \<open>a1\<close>) starts round 2.
\<close>

theorem C8_next_round_by_non_host:
  "reachable demo_reveal \<and>
   rooms demo_reveal ''100000'' = Some room_reveal \<and>
   status room_reveal = Reveal \<and> hostId room_reveal = ''a1'' \<and> s_id cy = ''c1'' \<and>
   rooms (fst (on_next_round cy ''100000'' demo_reveal)) ''100000'' =
     Some (room_reveal\<lparr>currentRound := 2, status := TopicSelection, submissions := [], votes := []\<rparr>) \<and>
   snd (on_next_round cy ''100000'' demo_reveal) =
     [(To_room ''100000'',
       Ev_new_round (room_reveal\<lparr>currentRound := 2, status := TopicSelection,
                                 submissions := [], votes := []\<rparr>))]"
proof -
  have "rooms demo_reveal ''100000'' = Some room_reveal \<and>
     status room_reveal = Reveal \<and> hostId room_reveal = ''a1'' \<and> s_id cy = ''c1'' \<and>
     rooms (fst (on_next_round cy ''100000'' demo_reveal)) ''100000'' =
       Some (room_reveal\<lparr>currentRound := 2, status := TopicSelection, submissions := [], votes := []\<rparr>) \<and>
     snd (on_next_round cy ''100000'' demo_reveal) =
       [(To_room ''100000'',
         Ev_new_round (room_reveal\<lparr>currentRound := 2, status := TopicSelection,
                                   submissions := [], votes := []\<rparr>))]"
    by code_simp
  with reachable_demo_reveal show ?thesis by (rule conjI)
qed

subsection \<open>C9: reconnection leaves the host and winner handles stale\<close>

text \<open>
  Claim C9. Both reconnection paths, the existing-session branch of \<open>join-room\<close> and the
  rebinding at connection time, write the new handle into the \<open>id\<close> of the seat found
  by the session and into nothing else: \<open>hostId\<close> and \<open>winnerOfLastRound\<close> keep their
  values. So a caller whose new handle differs from \<open>hostId\<close> is not the host for
  \<open>start-game\<close>, and one whose new handle differs from \<open>hostId\<close> and from
  \<open>winnerOfLastRound\<close> is not the judge for \<open>submit-topic\<close>, also when the seat rebound
  is the host's or the last winner's.
\<close>

theorem C9_reconnection_keeps_host_and_winner:
  assumes room: "rooms st rid = Some r"
  shows
    "(\<forall>sock n t. s_sessionId sock \<in> p_sessionId ` set (players r) \<longrightarrow>
       (\<exists>i r' st'. i < length (players r) \<and> p_sessionId (players r ! i) = s_sessionId sock \<and>
          r' = r\<lparr>players := (players r)[i := (players r ! i)\<lparr>p_id := s_id sock\<rparr>]\<rparr> \<and>
          st' = st\<lparr>rooms := (rooms st)(rid \<mapsto> r')\<rparr> \<and>
          fst (on_join_room sock rid n t st) = st' \<and>
          hostId r' = hostId r \<and> winnerOfLastRound r' = winnerOfLastRound r \<and>
          (s_id sock \<noteq> hostId r \<longrightarrow> on_start_game sock rid st' = (st', [])) \<and>
          (s_id sock \<noteq> hostId r \<and> winnerOfLastRound r \<noteq> Some (s_id sock) \<longrightarrow>
             (\<forall>t'. on_submit_topic sock rid t' st' = (st', []))))) \<and>
     (\<forall>sockId auth now fresh.
       (\<exists>r' st'. st' = fst (on_connection sockId auth now fresh st) \<and> rooms st' rid = Some r' \<and>
          (r' = r \<or> (\<exists>i<length (players r).
              r' = r\<lparr>players := (players r)[i := (players r ! i)\<lparr>p_id := sockId\<rparr>]\<rparr>)) \<and>
          hostId r' = hostId r \<and> winnerOfLastRound r' = winnerOfLastRound r \<and>
          (\<forall>sock. s_id sock = sockId \<and> sockId \<noteq> hostId r \<longrightarrow>
             on_start_game sock rid st' = (st', [])) \<and>
          (\<forall>sock t'. s_id sock = sockId \<and> sockId \<noteq> hostId r \<and>
             winnerOfLastRound r \<noteq> Some sockId \<longrightarrow>
             on_submit_topic sock rid t' st' = (st', []))))"
proof (intro conjI allI impI)
  fix sock :: socket and n t
  assume "s_sessionId sock \<in> p_sessionId ` set (players r)"
  with findIndex_Some_iff[of "\<lambda>p. p_sessionId p = s_sessionId sock" "players r"]
  obtain i where i: "findIndex (\<lambda>p. p_sessionId p = s_sessionId sock) (players r) = Some i"
    by auto
  let ?r' = "r\<lparr>players := (players r)[i := (players r ! i)\<lparr>p_id := s_id sock\<rparr>]\<rparr>"
  let ?st' = "st\<lparr>rooms := (rooms st)(rid \<mapsto> ?r')\<rparr>"
  from findIndex_Some_D[OF i]
  have len: "i < length (players r)" and ses: "p_sessionId (players r ! i) = s_sessionId sock"
    by simp_all
  have j: "fst (on_join_room sock rid n t st) = ?st'"
    by (simp add: on_join_room_rebind[OF room i])
  have room': "rooms ?st' rid = Some ?r'" by simp
  have sg: "s_id sock \<noteq> hostId r \<longrightarrow> on_start_game sock rid ?st' = (?st', [])"
    using start_game_ignored[OF room', of sock] by auto
  have tp: "s_id sock \<noteq> hostId r \<and> winnerOfLastRound r \<noteq> Some (s_id sock) \<longrightarrow>
      (\<forall>t'. on_submit_topic sock rid t' ?st' = (?st', []))"
    using submit_topic_ignored[OF room', of sock] by (auto simp: is_judge_def)
  from len ses j sg tp
  show "\<exists>i r' st'. i < length (players r) \<and> p_sessionId (players r ! i) = s_sessionId sock \<and>
          r' = r\<lparr>players := (players r)[i := (players r ! i)\<lparr>p_id := s_id sock\<rparr>]\<rparr> \<and>
          st' = st\<lparr>rooms := (rooms st)(rid \<mapsto> r')\<rparr> \<and>
          fst (on_join_room sock rid n t st) = st' \<and>
          hostId r' = hostId r \<and> winnerOfLastRound r' = winnerOfLastRound r \<and>
          (s_id sock \<noteq> hostId r \<longrightarrow> on_start_game sock rid st' = (st', [])) \<and>
          (s_id sock \<noteq> hostId r \<and> winnerOfLastRound r \<noteq> Some (s_id sock) \<longrightarrow>
             (\<forall>t'. on_submit_topic sock rid t' st' = (st', [])))"
    by (intro exI[of _ i] exI[of _ ?r'] exI[of _ ?st']) simp
next
  fix sockId auth now fresh
  let ?st' = "fst (on_connection sockId auth now fresh st)"
  from on_connection_room_cases[OF room, of sockId auth now fresh]
  obtain r' where r': "rooms ?st' rid = Some r'"
    and shape: "r' = r \<or> (\<exists>sess. rebind \<lparr> s_id = sockId, s_sessionId = sess \<rparr> r = Some r')"
    by auto
  from shape have form: "r' = r \<or> (\<exists>i<length (players r).
              r' = r\<lparr>players := (players r)[i := (players r ! i)\<lparr>p_id := sockId\<rparr>]\<rparr>)"
  proof
    assume "r' = r" then show ?thesis by simp
  next
    assume "\<exists>sess. rebind \<lparr> s_id = sockId, s_sessionId = sess \<rparr> r = Some r'"
    then obtain sess where "rebind \<lparr> s_id = sockId, s_sessionId = sess \<rparr> r = Some r'" ..
    from rebind_fields[OF this] obtain i
      where i: "findIndex (\<lambda>p. p_sessionId p = sess) (players r) = Some i"
        and eq: "r' = r\<lparr>players := (players r)[i := (players r ! i)\<lparr>p_id := sockId\<rparr>]\<rparr>"
      by auto
    from findIndex_Some_D[OF i] eq show ?thesis by blast
  qed
  then have keep: "hostId r' = hostId r" "winnerOfLastRound r' = winnerOfLastRound r" by auto
  have sg: "\<forall>sock. s_id sock = sockId \<and> sockId \<noteq> hostId r \<longrightarrow>
             on_start_game sock rid ?st' = (?st', [])"
    using start_game_ignored[OF r'] keep by auto
  have tp: "\<forall>sock t'. s_id sock = sockId \<and> sockId \<noteq> hostId r \<and>
             winnerOfLastRound r \<noteq> Some sockId \<longrightarrow>
             on_submit_topic sock rid t' ?st' = (?st', [])"
    using submit_topic_ignored[OF r'] keep by (auto simp: is_judge_def)
  from r' form keep sg tp
  show "\<exists>r' st'. st' = fst (on_connection sockId auth now fresh st) \<and> rooms st' rid = Some r' \<and>
          (r' = r \<or> (\<exists>i<length (players r).
              r' = r\<lparr>players := (players r)[i := (players r ! i)\<lparr>p_id := sockId\<rparr>]\<rparr>)) \<and>
          hostId r' = hostId r \<and> winnerOfLastRound r' = winnerOfLastRound r \<and>
          (\<forall>sock. s_id sock = sockId \<and> sockId \<noteq> hostId r \<longrightarrow>
             on_start_game sock rid st' = (st', [])) \<and>
          (\<forall>sock t'. s_id sock = sockId \<and> sockId \<noteq> hostId r \<and>
             winnerOfLastRound r \<noteq> Some sockId \<longrightarrow>
             on_submit_topic sock rid t' st' = (st', []))"
    by blast
qed

text \<open>The theorem at Ann's lobby: Ann, host and first judge, comes back on the
  connection \<open>a2\<close>; the room still names \<open>a1\<close> as host and winner, and her
  \<open>start-game\<close> and \<open>submit-topic\<close> are ignored.\<close>

theorem C9_reconnection_keeps_host_and_winner_witness:
  "rooms demo_alone ''100000'' = Some room_alone \<and>
   hostId room_alone = ''a1'' \<and> winnerOfLastRound room_alone = Some ''a1'' \<and>
   rooms (fst (on_connection ''a2'' (Some ''sa'') 9 ''zz'' demo_alone)) ''100000'' =
     Some room_alone_rebound \<and>
   hostId room_alone_rebound = ''a1'' \<and> winnerOfLastRound room_alone_rebound = Some ''a1'' \<and>
   s_id ann2 = ''a2'' \<and>
   on_start_game ann2 ''100000'' (fst (on_connection ''a2'' (Some ''sa'') 9 ''zz'' demo_alone)) =
     (fst (on_connection ''a2'' (Some ''sa'') 9 ''zz'' demo_alone), []) \<and>
   on_submit_topic ann2 ''100000'' ''X'' (fst (on_connection ''a2'' (Some ''sa'') 9 ''zz'' demo_alone)) =
     (fst (on_connection ''a2'' (Some ''sa'') 9 ''zz'' demo_alone), [])"
proof -
  have fields: "hostId room_alone = ''a1''" "winnerOfLastRound room_alone = Some ''a1''"
    "hostId room_alone_rebound = ''a1''" "winnerOfLastRound room_alone_rebound = Some ''a1''"
    by (simp_all add: room_alone_def room_alone_rebound_def)
  have handle: "s_id ann2 = ''a2''" by (simp add: ann2_def)
  have after: "rooms (fst (on_connection ''a2'' (Some ''sa'') 9 ''zz'' demo_alone)) ''100000'' =
     Some room_alone_rebound"
    by code_simp
  have new_handle: "''a2'' \<noteq> hostId room_alone" "winnerOfLastRound room_alone \<noteq> Some ''a2''"
    by (simp_all add: room_alone_def)
  note conn = C9_reconnection_keeps_host_and_winner[OF demo_alone_room, THEN conjunct2,
      rule_format, of "''a2''" "Some ''sa''" 9 "''zz''"]
  then obtain st' where st': "st' = fst (on_connection ''a2'' (Some ''sa'') 9 ''zz'' demo_alone)"
    and sg: "\<forall>sock. s_id sock = ''a2'' \<and> ''a2'' \<noteq> hostId room_alone \<longrightarrow>
             on_start_game sock ''100000'' st' = (st', [])"
    and tp: "\<forall>sock t'. s_id sock = ''a2'' \<and> ''a2'' \<noteq> hostId room_alone \<and>
             winnerOfLastRound room_alone \<noteq> Some ''a2'' \<longrightarrow>
             on_submit_topic sock ''100000'' t' st' = (st', [])"
    by blast
  from sg handle new_handle have 1: "on_start_game ann2 ''100000'' st' = (st', [])" by blast
  from tp handle new_handle have 2: "on_submit_topic ann2 ''100000'' ''X'' st' = (st', [])" by blast
  from 1 2 fields handle after demo_alone_room show ?thesis unfolding st' by blast
qed

subsection \<open>C10: a submission from a connection without a seat\<close>

text \<open>
  Claim C10. \<open>submit-gif\<close> does not ask whether the caller has a seat: in a room in
  \<open>gif-selection\<close>, a caller whose handle has no submission yet gets one appended under
  that handle, and the room moves to \<open>voting\<close> when the submissions then equal the players
  in number. There is a reachable room and a connected caller without a seat for which
  this closes the phase while a player of the room has not submitted.
\<close>

theorem C10_submit_gif_by_outsider_counts:
  "(\<forall>st rid r sock gifUrl'.
      rooms st rid = Some r \<and> status r = GifSelection \<and>
      s_id sock \<notin> playerId ` set (submissions r) \<longrightarrow>
      rooms (fst (on_submit_gif sock rid gifUrl' st)) rid =
        Some (if length (submissions r) + 1 = length (players r)
              then r\<lparr>submissions := submissions r @ [\<lparr>playerId = s_id sock, gifUrl = gifUrl'\<rparr>],
                     status := Voting, votes := []\<rparr>
              else r\<lparr>submissions := submissions r @ [\<lparr>playerId = s_id sock, gifUrl = gifUrl'\<rparr>]\<rparr>)) \<and>
   (\<exists>st rid r sock gifUrl' r' p.
      reachable st \<and> rooms st rid = Some r \<and> status r = GifSelection \<and>
      s_id sock \<notin> p_id ` set (players r) \<and>
      rooms (fst (on_submit_gif sock rid gifUrl' st)) rid = Some r' \<and>
      \<lparr>playerId = s_id sock, gifUrl = gifUrl'\<rparr> \<in> set (submissions r') \<and>
      length (submissions r') = length (players r') \<and> status r' = Voting \<and>
      players r' = players r \<and>
      p \<in> set (players r') \<and> p_id p \<notin> playerId ` set (submissions r'))"
proof (intro conjI allI impI)
  fix st :: state and rid r and sock :: socket and gifUrl'
  assume a: "rooms st rid = Some r \<and> status r = GifSelection \<and>
      s_id sock \<notin> playerId ` set (submissions r)"
  then have "findIndex (\<lambda>s. playerId s = s_id sock) (submissions r) = None"
    unfolding findIndex_None_iff by (metis imageI)
  with a show "rooms (fst (on_submit_gif sock rid gifUrl' st)) rid =
        Some (if length (submissions r) + 1 = length (players r)
              then r\<lparr>submissions := submissions r @ [\<lparr>playerId = s_id sock, gifUrl = gifUrl'\<rparr>],
                     status := Voting, votes := []\<rparr>
              else r\<lparr>submissions := submissions r @ [\<lparr>playerId = s_id sock, gifUrl = gifUrl'\<rparr>]\<rparr>)"
    by (simp add: on_submit_gif_def with_room_Some submit_gif_def upsert_submission_def Let_def)
next
  let ?r' = "room_gifs\<lparr>submissions := [\<lparr>playerId = ''a1'', gifUrl = ''g1''\<rparr>,
                                        \<lparr>playerId = ''e1'', gifUrl = ''g0''\<rparr>],
                        status := Voting, votes := []\<rparr>"
  let ?p = "\<lparr>p_id = ''b1'', p_sessionId = ''sb'', name = ''Bob'', points = 0\<rparr>"
  have 1: "status room_gifs = GifSelection" by (simp add: room_gifs_def)
  have 2: "s_id eve \<notin> p_id ` set (players room_gifs)" by (simp add: room_gifs_def eve_def)
  have 3: "rooms (fst (on_submit_gif eve ''100000'' ''g0'' demo_gifs)) ''100000'' = Some ?r'"
    by code_simp
  have 4: "\<lparr>playerId = s_id eve, gifUrl = ''g0''\<rparr> \<in> set (submissions ?r')"
    by (simp add: eve_def)
  have 5: "length (submissions ?r') = length (players ?r')" "status ?r' = Voting"
    "players ?r' = players room_gifs"
    by (simp_all add: room_gifs_def)
  have 6: "?p \<in> set (players ?r')" "p_id ?p \<notin> playerId ` set (submissions ?r')"
    by (simp_all add: room_gifs_def)
  from reachable_demo_gifs demo_gifs_room 1 2 3 4 5 6
  show "\<exists>st rid r sock gifUrl' r' p.
      reachable st \<and> rooms st rid = Some r \<and> status r = GifSelection \<and>
      s_id sock \<notin> p_id ` set (players r) \<and>
      rooms (fst (on_submit_gif sock rid gifUrl' st)) rid = Some r' \<and>
      \<lparr>playerId = s_id sock, gifUrl = gifUrl'\<rparr> \<in> set (submissions r') \<and>
      length (submissions r') = length (players r') \<and> status r' = Voting \<and>
      players r' = players r \<and>
      p \<in> set (players r') \<and> p_id p \<notin> playerId ` set (submissions r')"
    by (intro exI[of _ demo_gifs] exI[of _ "''100000''"] exI[of _ room_gifs] exI[of _ eve]
        exI[of _ "''g0''"] exI[of _ ?r'] exI[of _ ?p] conjI)
qed

text \<open>The theorem at the sample room of two that waits for Bob's GIF: Eve, who has no
  seat, submits, and the room is in \<open>voting\<close>.\<close>

theorem C10_submit_gif_by_outsider_counts_witness:
  "reachable demo_gifs \<and> rooms demo_gifs ''100000'' = Some room_gifs \<and>
   status room_gifs = GifSelection \<and>
   s_id eve \<notin> playerId ` set (submissions room_gifs) \<and>
   s_id eve \<notin> p_id ` set (players room_gifs) \<and>
   length (submissions room_gifs) + 1 = length (players room_gifs) \<and>
   rooms (fst (on_submit_gif eve ''100000'' ''g0'' demo_gifs)) ''100000'' =
     Some (room_gifs\<lparr>submissions := submissions room_gifs @ [\<lparr>playerId = s_id eve, gifUrl = ''g0''\<rparr>],
                     status := Voting, votes := []\<rparr>)"
proof -
  have facts: "status room_gifs = GifSelection"
    "s_id eve \<notin> playerId ` set (submissions room_gifs)"
    "s_id eve \<notin> p_id ` set (players room_gifs)"
    "length (submissions room_gifs) + 1 = length (players room_gifs)"
    by (simp_all add: room_gifs_def eve_def)
  note gen = C10_submit_gif_by_outsider_counts[THEN conjunct1, rule_format,
      of demo_gifs "''100000''" room_gifs eve "''g0''"]
  from gen demo_gifs_room facts
  have "rooms (fst (on_submit_gif eve ''100000'' ''g0'' demo_gifs)) ''100000'' =
     Some (room_gifs\<lparr>submissions := submissions room_gifs @ [\<lparr>playerId = s_id eve, gifUrl = ''g0''\<rparr>],
                     status := Voting, votes := []\<rparr>)"
    by simp
  with reachable_demo_gifs demo_gifs_room facts show ?thesis by blast
qed

end
